theory Spec2Isabelle
  imports Complex_Main "HOL-Library.Char_ord" "HOL-Library.List_Lexorder"
begin

section \<open>Text primitives\<close>

text \<open>
  Python \<open>str\<close> values are modelled as \<open>string\<close>, one \<open>char\<close> per code point, and the
  character classes below are the ASCII ones: the development covers ASCII text.
  Python \<open>float\<close> scores are modelled as exact rationals (\<open>rat\<close>); every score the
  validator compares against is a quotient of two natural numbers or a fixed decimal.
\<close>

definition lower_char :: "char \<Rightarrow> char" where
  "lower_char c =
     (let n = (of_char c :: nat) in if 65 \<le> n \<and> n \<le> 90 then char_of (n + 32) else c)"

text \<open>\<open>str.lower()\<close>.\<close>

definition lower :: "string \<Rightarrow> string" where
  "lower s = map lower_char s"

text \<open>The word-character class of \<open>re\<close>: letters, digits and the underscore.\<close>

definition is_word_char :: "char \<Rightarrow> bool" where
  "is_word_char c =
     (let n = (of_char c :: nat)
      in (48 \<le> n \<and> n \<le> 57) \<or> (65 \<le> n \<and> n \<le> 90) \<or> n = 95 \<or> (97 \<le> n \<and> n \<le> 122))"

text \<open>The characters \<open>str.split()\<close> treats as whitespace.\<close>

definition is_space :: "char \<Rightarrow> bool" where
  "is_space c = (let n = (of_char c :: nat) in (9 \<le> n \<and> n \<le> 13) \<or> (28 \<le> n \<and> n \<le> 32))"

text \<open>
  The maximal runs of characters satisfying \<open>p\<close>, left to right; \<open>cur\<close> is the run being
  read. Both \<open>re.findall\<close> with the pattern for one or more word characters and
  \<open>s.split()\<close> are instances.
\<close>

fun runs :: "(char \<Rightarrow> bool) \<Rightarrow> string \<Rightarrow> string \<Rightarrow> string list" where
  "runs p cur [] = (if cur = [] then [] else [cur])"
| "runs p cur (c # cs) =
     (if p c then runs p (cur @ [c]) cs
      else (if cur = [] then [] else [cur]) @ runs p [] cs)"

definition findall_word :: "string \<Rightarrow> string list" where
  "findall_word s = runs is_word_char [] s"

definition split_ws :: "string \<Rightarrow> string list" where
  "split_ws s = runs (\<lambda>c. \<not> is_space c) [] s"

fun startswith :: "string \<Rightarrow> string \<Rightarrow> bool" where
  "startswith s [] = True"
| "startswith [] (p # ps) = False"
| "startswith (c # cs) (p # ps) = (c = p \<and> startswith cs ps)"

text \<open>Python's \<open>sub in s\<close> on strings.\<close>

fun contains :: "string \<Rightarrow> string \<Rightarrow> bool" where
  "contains sub [] = (sub = [])"
| "contains sub (c # cs) = (startswith (c # cs) sub \<or> contains sub cs)"

text \<open>\<open>dict.get(key, default)\<close>.\<close>

definition dict_get :: "('k \<rightharpoonup> 'v) \<Rightarrow> 'k \<Rightarrow> 'v \<Rightarrow> 'v" where
  "dict_get d k dflt = (case d k of Some v \<Rightarrow> v | None \<Rightarrow> dflt)"

section \<open>Response validator\<close>

datatype mval = MStr string | MInt nat

record document =
  page_content :: string
  metadata :: "string \<rightharpoonup> mval"

record validation_result =
  is_valid :: bool
  warnings :: "string list"
  grounding_score :: rat
  quality_score :: rat

definition min_answer_length :: nat where
  "min_answer_length = 10"

definition max_answer_length :: nat where
  "max_answer_length = 5000"

definition uncertainty_phrases :: "string list" where
  "uncertainty_phrases =
     [''i don't have enough information'',
      ''cannot find'',
      ''not available in the context'',
      ''not mentioned in the documents'']"

text \<open>The \<open>for doc in context_docs\<close> loop of \<open>_check_grounding\<close> on its two counters.\<close>

fun grounding_loop :: "string \<Rightarrow> document list \<Rightarrow> nat \<times> nat \<Rightarrow> nat \<times> nat" where
  "grounding_loop answer_lower [] (overlap_count, total_terms) = (overlap_count, total_terms)"
| "grounding_loop answer_lower (doc # docs) (overlap_count, total_terms) =
     (let context_lower = lower (page_content doc);
          answer_words = set (findall_word answer_lower);
          context_words = set (findall_word context_lower)
      in grounding_loop answer_lower docs
           (overlap_count + card (answer_words \<inter> context_words),
            total_terms + card answer_words))"

definition check_grounding :: "string \<Rightarrow> document list \<Rightarrow> rat" where
  "check_grounding answer context_docs =
     (if context_docs = [] then 0
      else
        (let answer_lower = lower answer;
             (overlap_count, total_terms) = grounding_loop answer_lower context_docs (0, 0)
         in if total_terms = 0 then 0
            else min (of_nat overlap_count / of_nat total_terms) 1))"

definition contains_uncertainity :: "string \<Rightarrow> bool" where
  "contains_uncertainity answer =
     (let answer_lower = lower answer
      in list_ex (\<lambda>phrase. contains phrase answer_lower) uncertainty_phrases)"

definition calculate_quality_score :: "string \<Rightarrow> rat \<Rightarrow> rat" where
  "calculate_quality_score answer grounded_score =
     (let score = grounded_score;
          word_count = length (split_ws answer);
          score = (if 50 \<le> word_count \<and> word_count \<le> 500 then score + 2 / 10 else score);
          score = (if word_count < 20 \<or> word_count > 1000 then score - 3 / 10 else score)
      in max 0 (min 1 score))"

definition add_warning :: "string \<Rightarrow> validation_result \<Rightarrow> validation_result" where
  "add_warning w r = r\<lparr>warnings := warnings r @ [w]\<rparr>"

definition validate :: "(string \<rightharpoonup> string) \<Rightarrow> document list \<Rightarrow> validation_result" where
  "validate response context_docs =
     (let answer = dict_get response ''answer'' '''';
          r = \<lparr>is_valid = True, warnings = [], grounding_score = 0, quality_score = 0\<rparr>;
          r = (if length answer < min_answer_length
               then (add_warning ''Answer too short'' r)\<lparr>quality_score := quality_score r - 2 / 10\<rparr>
               else r);
          r = (if length answer > max_answer_length
               then (add_warning ''Answer too long'' r)\<lparr>quality_score := quality_score r - 1 / 10\<rparr>
               else r);
          grounding = check_grounding answer context_docs;
          r = r\<lparr>grounding_score := grounding\<rparr>;
          r = (if grounding < 1 / 2 then add_warning ''Low grounding score'' r else r);
          r = (if contains_uncertainity answer
               then add_warning ''Response indicates uncertainity'' r else r)
      in r\<lparr>quality_score := calculate_quality_score answer grounding\<rparr>)"

text \<open>
  The grounding score as the specification words it: \<open>A\<close> is the token set of the
  lower-cased answer, each chunk contributes \<open>|A \<inter> C_i|\<close> to the overlap, and the total is
  \<open>|A|\<close> times the number of chunks.
\<close>

definition spec_grounding :: "string \<Rightarrow> document list \<Rightarrow> rat" where
  "spec_grounding answer context_docs =
     (let A = set (findall_word (lower answer));
          overlap = sum_list
            (map (\<lambda>d. card (A \<inter> set (findall_word (lower (page_content d))))) context_docs);
          total = card A * length context_docs
      in if context_docs = [] \<or> total = 0 then 0
         else min (of_nat overlap / of_nat total) 1)"

section \<open>Metadata enricher\<close>

text \<open>
  The four regular expressions of \<open>entity_patters\<close> are named rather than spelled:
  \<open>EmailPattern\<close> (a word-bounded address), \<open>PhonePattern\<close> (three, three and four digits
  with optional \<open>-\<close> or \<open>.\<close> between), \<open>DatePattern\<close> (one or two digits, slash, one or
  two digits, slash, two to four digits) and \<open>UrlPattern\<close> (\<open>http\<close> or \<open>https\<close>, \<open>://\<close>,
  then non-space characters). None has a capture group, so \<open>re.findall\<close> returns the
  matched strings. The regular-expression engine is a parameter \<open>findall\<close>, and so is
  \<open>to_list\<close>, the iteration order of \<open>list(...)\<close> over a Python set.
\<close>

datatype pattern = EmailPattern | PhonePattern | DatePattern | UrlPattern

definition entity_patters :: "(string \<times> pattern) list" where
  "entity_patters =
     [(''email'', EmailPattern),
      (''phone'', PhonePattern),
      (''date'', DatePattern),
      (''url'', UrlPattern)]"

text \<open>The loop of \<open>_extract_entities\<close> over \<open>entity_patters.items()\<close>.\<close>

fun extract_loop ::
  "(pattern \<Rightarrow> string \<Rightarrow> string list) \<Rightarrow> (string set \<Rightarrow> string list) \<Rightarrow> string \<Rightarrow>
   (string \<times> pattern) list \<Rightarrow> (string \<rightharpoonup> string list) \<Rightarrow> (string \<rightharpoonup> string list)" where
  "extract_loop findall to_list text [] entities = entities"
| "extract_loop findall to_list text ((entity_type, pat) # rest) entities =
     (let matches = findall pat text
      in extract_loop findall to_list text rest
           (if matches \<noteq> [] then entities(entity_type \<mapsto> to_list (set matches))
            else entities))"

definition extract_entities ::
  "(pattern \<Rightarrow> string \<Rightarrow> string list) \<Rightarrow> (string set \<Rightarrow> string list) \<Rightarrow> string \<Rightarrow>
   (string \<rightharpoonup> string list)" where
  "extract_entities findall to_list text =
     extract_loop findall to_list text entity_patters Map.empty"

definition identify_content_type :: "document \<Rightarrow> string" where
  "identify_content_type document =
     (let content = lower (page_content document)
      in if list_ex (\<lambda>word. contains word content)
              [''class'', ''def '', ''function'', ''import'']
         then ''code''
         else if list_ex (\<lambda>word. contains word content)
              [''abstract'', ''introduction'', ''methodology'']
         then ''academic''
         else if contains ''meeting'' content \<or> contains ''agenda'' content
         then ''meeting_notes''
         else if contains ''policy'' content \<or> contains ''procedure'' content
         then ''policy''
         else ''general'')"

section \<open>Settings\<close>

record settings =
  CHUNK_SIZE :: nat
  CHUNK_OVERLAP :: nat
  MAX_DOCUMENT_SIZE_MB :: nat
  SUPPORTED_FORMATS :: "string list"
  REDIS_URL :: string
  CACHE_TTL_SECONDS :: nat
  ENABLE_CACHE :: bool

definition default_settings :: settings where
  "default_settings =
     \<lparr>CHUNK_SIZE = 1000,
      CHUNK_OVERLAP = 200,
      MAX_DOCUMENT_SIZE_MB = 50,
      SUPPORTED_FORMATS = [''.pdf'', ''.docx'', ''.txt'', ''.md'', ''.pptx''],
      REDIS_URL = ''redis://localhost:6379/0'',
      CACHE_TTL_SECONDS = 3600,
      ENABLE_CACHE = True\<rparr>"

section \<open>Exceptions\<close>

text \<open>
  \<open>DocumentProcessingError\<close> carries what its message reports; \<open>Exception\<close> stands for
  any other exception a library call raises. \<open>ProcessingFailed e\<close> is the error that
  \<open>process_document\<close> raises \<open>from e\<close>.
\<close>

datatype exn =
    DocumentProcessingError reason
  | Exception string
and reason =
    FileNotFound string
  | UnsupportedFormat string
  | FileTooLarge nat
  | NoLoader string
  | ProcessingFailed exn

fun is_DocumentProcessingError :: "exn \<Rightarrow> bool" where
  "is_DocumentProcessingError (DocumentProcessingError r) = True"
| "is_DocumentProcessingError (Exception m) = False"

text \<open>Sequencing of statements that may raise: the first exception ends the block.\<close>

definition and_then :: "exn + 'a \<Rightarrow> ('a \<Rightarrow> exn + 'b) \<Rightarrow> exn + 'b" where
  "and_then r f = (case r of Inl e \<Rightarrow> Inl e | Inr x \<Rightarrow> f x)"

section \<open>Document processor\<close>

text \<open>
  A \<open>Path\<close> with the attributes the processor reads. A file system maps the path string
  to the bytes of the file; \<open>exists()\<close> is membership and \<open>stat().st_size\<close> the length.
\<close>

record path =
  path_str :: string
  name :: string
  suffix :: string

type_synonym bytes = "char list"

type_synonym filesystem = "string \<rightharpoonup> bytes"

datatype loader = PyPDFLoader | UnstructuredWordDocumentLoader | TextLoader
  | UnstructuredMarkdownLoader

datatype arg = IntArg nat | LenArg | ListArg "string list"

record 'sp document_processor =
  text_splitter :: 'sp
  loaders :: "string \<rightharpoonup> loader"

text \<open>
  The keyword arguments that \<open>__init__\<close> passes to \<open>RecursiveCharacterTextSplitter\<close>,
  spelled as in the source.
\<close>

definition splitter_kwargs :: "settings \<Rightarrow> (string \<times> arg) list" where
  "splitter_kwargs st =
     [(''chunk_size'', IntArg (CHUNK_SIZE st)),
      (''chunnk_overlap'', IntArg (CHUNK_OVERLAP st)),
      (''length_function'', LenArg),
      (''separators'', ListArg [[CHR 0x0A, CHR 0x0A], [CHR 0x0A], ''. '', '' '', ''''])]"

text \<open>
  \<open>DocumentProcessor.__init__\<close>; the splitter class is the library's and is a parameter
  that receives the keyword arguments.
\<close>

definition DocumentProcessor_init ::
  "((string \<times> arg) list \<Rightarrow> exn + 'sp) \<Rightarrow> settings \<Rightarrow> exn + 'sp document_processor" where
  "DocumentProcessor_init RecursiveCharacterTextSplitter st =
     and_then (RecursiveCharacterTextSplitter (splitter_kwargs st))
       (\<lambda>sp. Inr \<lparr>text_splitter = sp,
                   loaders = [''.pdf'' \<mapsto> PyPDFLoader,
                              ''.docx'' \<mapsto> UnstructuredWordDocumentLoader,
                              ''.txt'' \<mapsto> TextLoader,
                              ''.md'' \<mapsto> UnstructuredMarkdownLoader]\<rparr>)"

text \<open>
  A Python callable that declares the parameters \<open>params\<close> and has no catch-all for
  keywords: a keyword argument it does not declare raises \<open>TypeError\<close>, otherwise the
  body \<open>build\<close> runs on the bound arguments.
\<close>

definition strict_callable ::
  "string list \<Rightarrow> ((string \<rightharpoonup> arg) \<Rightarrow> 'sp) \<Rightarrow> (string \<times> arg) list \<Rightarrow> exn + 'sp" where
  "strict_callable params build kwargs =
     (if list_all (\<lambda>(k, v). k \<in> set params) kwargs then Inr (build (map_of kwargs))
      else Inl (Exception ''TypeError''))"

text \<open>
  The library calls of the processor: running a loader on a path, splitting documents
  (each chunk a fresh \<open>Document\<close> with its own metadata dict, so the in-place updates of
  \<open>_enrich_metadata\<close> are updates of values), the SHA-256 hex digest of a byte string, and
  the clock read at the \<open>i\<close>-th chunk.
\<close>

record 'sp ingestion =
  run_loader :: "loader \<Rightarrow> string \<Rightarrow> exn + document list"
  split_documents :: "'sp \<Rightarrow> document list \<Rightarrow> exn + document list"
  sha256_hexdigest :: "bytes \<Rightarrow> string"
  now_isoformat :: "nat \<Rightarrow> string"

definition validate_file :: "settings \<Rightarrow> filesystem \<Rightarrow> path \<Rightarrow> exn + unit" where
  "validate_file st fs file_path =
     (case fs (path_str file_path) of
        None \<Rightarrow> Inl (DocumentProcessingError (FileNotFound (path_str file_path)))
      | Some data \<Rightarrow>
          if suffix file_path \<notin> set (SUPPORTED_FORMATS st)
          then Inl (DocumentProcessingError (UnsupportedFormat (suffix file_path)))
          else
            (let file_size_mb = (of_nat (length data) :: rat) / (1024 * 1024)
             in if file_size_mb > of_nat (MAX_DOCUMENT_SIZE_MB st)
                then Inl (DocumentProcessingError (FileTooLarge (length data)))
                else Inr ()))"

definition load_document ::
  "'sp ingestion \<Rightarrow> 'sp document_processor \<Rightarrow> path \<Rightarrow> exn + document list" where
  "load_document lib self file_path =
     (case loaders self (suffix file_path) of
        None \<Rightarrow> Inl (DocumentProcessingError (NoLoader (suffix file_path)))
      | Some loader_class \<Rightarrow> run_loader lib loader_class (path_str file_path))"

text \<open>\<open>iter(lambda: f.read(4096), b"")\<close>: the blocks read until the first empty one.\<close>

function read_blocks :: "bytes \<Rightarrow> bytes list" where
  "read_blocks data =
     (let byte_block = take 4096 data
      in if byte_block = [] then [] else byte_block # read_blocks (drop 4096 data))"
  by pat_completeness auto
termination
  by (relation "measure length") auto

declare read_blocks.simps [simp del]

text \<open>
  The hash object is the bytes fed to it so far: \<open>update\<close> appends a block and
  \<open>hexdigest\<close> is the digest of what was fed.
\<close>

definition calculate_file_hash :: "(bytes \<Rightarrow> string) \<Rightarrow> filesystem \<Rightarrow> path \<Rightarrow> exn + string" where
  "calculate_file_hash sha256 fs file_path =
     (case fs (path_str file_path) of
        None \<Rightarrow> Inl (Exception ''FileNotFoundError'')
      | Some data \<Rightarrow>
          Inr (sha256 (fold (\<lambda>byte_block fed. fed @ byte_block) (read_blocks data) [])))"

definition enrich_metadata ::
  "'sp ingestion \<Rightarrow> filesystem \<Rightarrow> document list \<Rightarrow> path \<Rightarrow> (string \<rightharpoonup> mval) \<Rightarrow>
   exn + document list" where
  "enrich_metadata lib fs chunks file_path custom_metadata =
     and_then (calculate_file_hash (sha256_hexdigest lib) fs file_path)
       (\<lambda>file_hash.
          Inr (map (\<lambda>(i, chunk).
                 chunk\<lparr>metadata := metadata chunk ++
                   ([''source'' \<mapsto> MStr (path_str file_path),
                     ''file_name'' \<mapsto> MStr (name file_path),
                     ''file_type'' \<mapsto> MStr (suffix file_path),
                     ''file_hash'' \<mapsto> MStr file_hash,
                     ''chunk_index'' \<mapsto> MInt i,
                     ''total_chunks'' \<mapsto> MInt (length chunks),
                     ''processed_at'' \<mapsto> MStr (now_isoformat lib i),
                     ''chunk_size'' \<mapsto> MInt (length (page_content chunk))]
                    ++ custom_metadata)\<rparr>)
               (enumerate 0 chunks)))"

definition process_document ::
  "'sp ingestion \<Rightarrow> settings \<Rightarrow> filesystem \<Rightarrow> 'sp document_processor \<Rightarrow> path \<Rightarrow>
   (string \<rightharpoonup> mval) option \<Rightarrow> exn + document list" where
  "process_document lib st fs self file_path metadata_arg =
     (case
        and_then (validate_file st fs file_path) (\<lambda>_.
        and_then (load_document lib self file_path) (\<lambda>documents.
        and_then (split_documents lib (text_splitter self) documents) (\<lambda>chunks.
        enrich_metadata lib fs chunks file_path
          (case metadata_arg of None \<Rightarrow> Map.empty | Some m \<Rightarrow> m))))
      of
        Inl e \<Rightarrow> Inl (DocumentProcessingError (ProcessingFailed e))
      | Inr enriched_chunks \<Rightarrow> Inr enriched_chunks)"

text \<open>The keys that \<open>_enrich_metadata\<close> generates for every chunk.\<close>

definition generated_keys :: "string set" where
  "generated_keys =
     {''source'', ''file_name'', ''file_type'', ''file_hash'', ''chunk_index'',
      ''total_chunks'', ''processed_at'', ''chunk_size''}"

section \<open>Cache layer\<close>

text \<open>
  Positional arguments are a list and keyword arguments an association list in call
  order with distinct keys, as a Python \<open>dict\<close> holds them. \<open>repr\<close> of an argument value
  and of a key, and the MD5 hex digest of the encoded string, are parameters.
  \<open>sorted(kwargs.items())\<close> compares the pairs by key first; the keys of a dict are
  distinct, so the values are never compared and the order is the order of the keys.
\<close>

text \<open>Argument values of the two kinds the example call uses.\<close>

datatype pyval = PStr string | PInt int

fun join :: "string \<Rightarrow> string list \<Rightarrow> string" where
  "join sep [] = ''''"
| "join sep [x] = x"
| "join sep (x # y # ys) = x @ sep @ join sep (y # ys)"

text \<open>\<open>str\<close> of a tuple: a one-element tuple prints with a trailing comma.\<close>

definition str_tuple :: "('a \<Rightarrow> string) \<Rightarrow> 'a list \<Rightarrow> string" where
  "str_tuple repr args =
     (case args of
        [x] \<Rightarrow> ''('' @ repr x @ '',)''
      | _ \<Rightarrow> ''('' @ join '', '' (map repr args) @ '')'')"

text \<open>\<open>str\<close> of a list of key-value pairs.\<close>

definition str_items :: "(string \<Rightarrow> string) \<Rightarrow> ('a \<Rightarrow> string) \<Rightarrow> (string \<times> 'a) list \<Rightarrow> string" where
  "str_items repr_key repr items =
     ''['' @ join '', '' (map (\<lambda>(k, v). ''('' @ repr_key k @ '', '' @ repr v @ '')'') items) @ '']''"

definition generate_key ::
  "(string \<Rightarrow> string) \<Rightarrow> (string \<Rightarrow> string) \<Rightarrow> ('a \<Rightarrow> string) \<Rightarrow>
   string \<Rightarrow> 'a list \<Rightarrow> (string \<times> 'a) list \<Rightarrow> string" where
  "generate_key md5_hexdigest repr_key repr prefix args kwargs =
     (let key_data =
        prefix @ '':'' @ str_tuple repr args @ '':'' @
        str_items repr_key repr (sort_key fst kwargs)
      in md5_hexdigest key_data)"

text \<open>
  A call that touches the outside world takes the state of the world and returns an
  exception or a value together with the new state.
\<close>

type_synonym ('w, 'a) io = "'w \<Rightarrow> (exn + 'a) \<times> 'w"

definition io_bind :: "('w, 'a) io \<Rightarrow> ('a \<Rightarrow> ('w, 'b) io) \<Rightarrow> ('w, 'b) io" where
  "io_bind m f w = (case m w of (Inl e, w') \<Rightarrow> (Inl e, w') | (Inr x, w') \<Rightarrow> f x w')"

definition io_return :: "'a \<Rightarrow> ('w, 'a) io" where
  "io_return x w = (Inr x, w)"

text \<open>\<open>try: body except Exception: handler\<close>.\<close>

definition try_except :: "('w, 'a) io \<Rightarrow> (exn \<Rightarrow> ('w, 'a) io) \<Rightarrow> ('w, 'a) io" where
  "try_except body handler w =
     (case body w of (Inl e, w') \<Rightarrow> handler e w' | (Inr x, w') \<Rightarrow> (Inr x, w'))"

text \<open>
  The Redis client library and the JSON codec. A value of type \<open>'v option\<close> is a Python
  value, \<open>None\<close> being Python's \<open>None\<close>. \<open>redis_get\<close> answers \<open>None\<close> for a missing key.
\<close>

record ('w, 'c, 'v) store =
  from_url :: "string \<Rightarrow> ('w, 'c) io"
  ping :: "'c \<Rightarrow> ('w, unit) io"
  redis_get :: "'c \<Rightarrow> string \<Rightarrow> ('w, string option) io"
  redis_setex :: "'c \<Rightarrow> string \<Rightarrow> nat \<Rightarrow> string \<Rightarrow> ('w, unit) io"
  redis_delete :: "'c \<Rightarrow> string \<Rightarrow> ('w, unit) io"
  redis_close :: "'c \<Rightarrow> ('w, unit) io"
  json_loads :: "string \<Rightarrow> exn + 'v option"
  json_dumps :: "'v option \<Rightarrow> exn + string"

record 'c cache_manager =
  redis_client :: "'c option"
  enabled :: bool
  ttl :: nat

definition CacheManager_init :: "settings \<Rightarrow> 'c cache_manager" where
  "CacheManager_init st =
     \<lparr>redis_client = None, enabled = ENABLE_CACHE st, ttl = CACHE_TTL_SECONDS st\<rparr>"

text \<open>
  \<open>connect\<close> returns the manager as it leaves it. The client is assigned before the
  ping, so a failed ping leaves a client in place and the cache disabled.
\<close>

definition connect ::
  "('w, 'c, 'v) store \<Rightarrow> settings \<Rightarrow> 'c cache_manager \<Rightarrow> ('w, 'c cache_manager) io" where
  "connect lib st self =
     (if \<not> enabled self then io_return self
      else
        (\<lambda>w. case from_url lib (REDIS_URL st) w of
                (Inl e, w') \<Rightarrow> (Inr (self\<lparr>enabled := False\<rparr>), w')
              | (Inr c, w') \<Rightarrow>
                  (let self = self\<lparr>redis_client := Some c\<rparr>
                   in case ping lib c w' of
                        (Inl e, w'') \<Rightarrow> (Inr (self\<lparr>enabled := False\<rparr>), w'')
                      | (Inr _, w'') \<Rightarrow> (Inr self, w''))))"

definition disconnect :: "('w, 'c, 'v) store \<Rightarrow> 'c cache_manager \<Rightarrow> ('w, unit) io" where
  "disconnect lib self =
     (case redis_client self of
        Some c \<Rightarrow> redis_close lib c
      | None \<Rightarrow> io_return ())"

definition cache_get ::
  "('w, 'c, 'v) store \<Rightarrow> 'c cache_manager \<Rightarrow> string \<Rightarrow> ('w, 'v option) io" where
  "cache_get lib self key =
     (if \<not> enabled self \<or> redis_client self = None then io_return None
      else
        try_except
          (io_bind (redis_get lib (the (redis_client self)) key) (\<lambda>value.
             case value of
               None \<Rightarrow> io_return None
             | Some s \<Rightarrow>
                 if s \<noteq> [] then (\<lambda>w. (json_loads lib s, w))
                 else io_return None))
          (\<lambda>e. io_return None))"

definition cache_set ::
  "('w, 'c, 'v) store \<Rightarrow> 'c cache_manager \<Rightarrow> string \<Rightarrow> 'v option \<Rightarrow> nat option \<Rightarrow>
   ('w, bool) io" where
  "cache_set lib self key val ttl_arg =
     (if \<not> enabled self \<or> redis_client self = None then io_return False
      else
        try_except
          (io_bind (\<lambda>w. (json_dumps lib val, w)) (\<lambda>serialized.
             (let ttl' = (case ttl_arg of
                            None \<Rightarrow> ttl self
                          | Some t \<Rightarrow> if t \<noteq> 0 then t else ttl self)
              in io_bind (redis_setex lib (the (redis_client self)) key ttl' serialized)
                   (\<lambda>_. io_return True))))
          (\<lambda>e. io_return False))"

definition cache_delete ::
  "('w, 'c, 'v) store \<Rightarrow> 'c cache_manager \<Rightarrow> string \<Rightarrow> ('w, bool) io" where
  "cache_delete lib self key =
     (if \<not> enabled self \<or> redis_client self = None then io_return False
      else
        try_except
          (io_bind (redis_delete lib (the (redis_client self)) key) (\<lambda>_. io_return True))
          (\<lambda>e. io_return False))"

text \<open>
  The call \<open>cache.generate_key(prefix, *args, **kwargs)\<close> that the wrapper makes with its
  own arguments; \<open>keyfn\<close> is \<open>generate_key\<close> with its three library parameters supplied.
  The first parameter of \<open>generate_key\<close> is named \<open>prefix\<close> and receives the decorator's
  prefix positionally, so a keyword argument of the wrapper that is itself named
  \<open>prefix\<close> is a second value for that parameter and the call raises \<open>TypeError\<close>; every
  other keyword goes to the keyword dictionary of \<open>generate_key\<close>.
\<close>

definition call_generate_key ::
  "(string \<Rightarrow> 'a list \<Rightarrow> (string \<times> 'a) list \<Rightarrow> string) \<Rightarrow>
   string \<Rightarrow> 'a list \<Rightarrow> (string \<times> 'a) list \<Rightarrow> exn + string" where
  "call_generate_key keyfn prefix args kwargs =
     (if ''prefix'' \<in> set (map fst kwargs) then Inl (Exception ''TypeError'')
      else Inr (keyfn prefix args kwargs))"

text \<open>
  The wrapper that \<open>cached(prefix, ttl)\<close> puts around \<open>func\<close>. The key is generated after
  \<open>connect\<close> and outside any \<open>try\<close>, and so are the call of \<open>func\<close> and both calls of
  \<open>disconnect\<close>.
\<close>

definition cached ::
  "('w, 'c, 'v) store \<Rightarrow> settings \<Rightarrow> (string \<Rightarrow> 'a list \<Rightarrow> (string \<times> 'a) list \<Rightarrow> string) \<Rightarrow>
   string \<Rightarrow> nat option \<Rightarrow> ('a list \<Rightarrow> (string \<times> 'a) list \<Rightarrow> ('w, 'v option) io) \<Rightarrow>
   'a list \<Rightarrow> (string \<times> 'a) list \<Rightarrow> ('w, 'v option) io" where
  "cached lib st keyfn prefix ttl_arg func args kwargs =
     io_bind (connect lib st (CacheManager_init st)) (\<lambda>cache.
     io_bind (\<lambda>w. (call_generate_key keyfn prefix args kwargs, w)) (\<lambda>cache_key.
     io_bind (cache_get lib cache cache_key) (\<lambda>cached_result.
       case cached_result of
         Some v \<Rightarrow> io_bind (disconnect lib cache) (\<lambda>_. io_return (Some v))
       | None \<Rightarrow>
           io_bind (func args kwargs) (\<lambda>result.
           io_bind (cache_set lib cache cache_key result ttl_arg) (\<lambda>_.
           io_bind (disconnect lib cache) (\<lambda>_. io_return result))))))"

section \<open>Example inputs\<close>

text \<open>
  A small text file, a processor with the loader table of the constructor, and two
  library environments: one whose loader and splitter succeed and one whose loader
  raises.
\<close>

definition example_path :: path where
  "example_path = \<lparr>path_str = ''notes.txt'', name = ''notes.txt'', suffix = ''.txt''\<rparr>"

definition example_pptx :: path where
  "example_pptx = \<lparr>path_str = ''deck.pptx'', name = ''deck.pptx'', suffix = ''.pptx''\<rparr>"

definition example_fs :: filesystem where
  "example_fs = [''notes.txt'' \<mapsto> ''hello world'', ''deck.pptx'' \<mapsto> ''slides'']"

definition example_processor :: "unit document_processor" where
  "example_processor =
     \<lparr>text_splitter = (),
      loaders = [''.pdf'' \<mapsto> PyPDFLoader,
                 ''.docx'' \<mapsto> UnstructuredWordDocumentLoader,
                 ''.txt'' \<mapsto> TextLoader,
                 ''.md'' \<mapsto> UnstructuredMarkdownLoader]\<rparr>"

definition example_ingestion :: "unit ingestion" where
  "example_ingestion =
     \<lparr>run_loader = (\<lambda>loader_class p. Inr [\<lparr>page_content = ''hello world'', metadata = Map.empty\<rparr>]),
      split_documents = (\<lambda>sp documents.
        Inr [\<lparr>page_content = ''hello'', metadata = Map.empty\<rparr>,
             \<lparr>page_content = ''world'', metadata = Map.empty\<rparr>]),
      sha256_hexdigest = (\<lambda>data. ''sha256 of '' @ data),
      now_isoformat = (\<lambda>i. ''2024-01-01T00:00:00'')\<rparr>"

definition failing_ingestion :: "unit ingestion" where
  "failing_ingestion =
     example_ingestion\<lparr>run_loader := (\<lambda>loader_class p. Inl (Exception ''UnicodeDecodeError''))\<rparr>"

text \<open>
  A store whose client can be created but whose server is unreachable: the ping and the
  close raise. The world state is trivial.
\<close>

definition unreachable_store :: "(unit, unit, nat) store" where
  "unreachable_store =
     \<lparr>from_url = (\<lambda>url w. (Inr (), w)),
      ping = (\<lambda>c w. (Inl (Exception ''ConnectionError''), w)),
      redis_get = (\<lambda>c key w. (Inl (Exception ''ConnectionError''), w)),
      redis_setex = (\<lambda>c key t v w. (Inl (Exception ''ConnectionError''), w)),
      redis_delete = (\<lambda>c key w. (Inl (Exception ''ConnectionError''), w)),
      redis_close = (\<lambda>c w. (Inl (Exception ''ConnectionError''), w)),
      json_loads = (\<lambda>s. Inr None),
      json_dumps = (\<lambda>v. Inr ''null'')\<rparr>"

text \<open>The same server with a client whose close does not raise.\<close>

definition quiet_close_store :: "(unit, unit, nat) store" where
  "quiet_close_store = unreachable_store\<lparr>redis_close := (\<lambda>c w. (Inr (), w))\<rparr>"

text \<open>A wrapped function that returns \<open>7\<close>, and a key function.\<close>

definition seven :: "nat list \<Rightarrow> (string \<times> nat) list \<Rightarrow> (unit, nat option) io" where
  "seven args kwargs = io_return (Some 7)"

definition example_keyfn :: "string \<Rightarrow> nat list \<Rightarrow> (string \<times> nat) list \<Rightarrow> string" where
  "example_keyfn = generate_key id id (\<lambda>n. replicate n CHR ''x'')"

section \<open>Properties of the response validator\<close>

lemma grounding_loop_eq:
  "grounding_loop al docs (ov, tot) =
     (ov + sum_list (map (\<lambda>d. card (set (findall_word al) \<inter>
                                   set (findall_word (lower (page_content d))))) docs),
      tot + card (set (findall_word al)) * length docs)"
  by (induction docs arbitrary: ov tot) (simp_all add: Let_def algebra_simps)

lemma check_grounding_spec: "check_grounding answer docs = spec_grounding answer docs"
  by (simp add: check_grounding_def spec_grounding_def grounding_loop_eq Let_def)

lemma validate_grounding:
  "grounding_score (validate response docs) =
     check_grounding (dict_get response ''answer'' '''') docs"
  by (simp add: validate_def Let_def add_warning_def)

lemma validate_quality:
  "quality_score (validate response docs) =
     calculate_quality_score (dict_get response ''answer'' '''')
       (check_grounding (dict_get response ''answer'' '''') docs)"
  by (simp add: validate_def Let_def add_warning_def)

lemma validate_is_valid: "is_valid (validate response docs)"
  by (simp add: validate_def Let_def add_warning_def)

lemma validate_low_warning:
  "check_grounding (dict_get response ''answer'' '''') docs < 1 / 2 \<Longrightarrow>
   ''Low grounding score'' \<in> set (warnings (validate response docs))"
  by (simp add: validate_def Let_def add_warning_def)

lemma validate_short_warning:
  "length (dict_get response ''answer'' '''') < 10 \<Longrightarrow>
   ''Answer too short'' \<in> set (warnings (validate response docs))"
  by (simp add: validate_def Let_def add_warning_def min_answer_length_def)

lemma findall_word_Nil: "findall_word (lower []) = []"
  by (simp add: findall_word_def lower_def)

lemma check_grounding_empty_answer: "check_grounding [] docs = 0"
  by (simp add: check_grounding_spec spec_grounding_def findall_word_Nil)

text \<open>
  Claim C1. For every response and every sequence of context chunks, the grounding
  score that \<open>validate\<close> returns is the one the specification describes: with \<open>A\<close> the
  word-token set of the lower-cased answer, the overlap is the sum over the chunks of
  \<open>|A \<inter> C_i|\<close>, the total is \<open>|A|\<close> times the number of chunks (second conjunct, on the
  loop's own counter), and the score is \<open>0\<close> for an empty context or a zero total and
  \<open>min (overlap / total) 1\<close> otherwise. The chunk \<open>the cat sat on the mat\<close> with the
  answer \<open>the cat sat\<close> scores \<open>1\<close>, and a score below one half always comes with the
  warning \<open>Low grounding score\<close>.
\<close>

theorem validate_grounding_score:
  "grounding_score (validate response context_docs) =
     spec_grounding (dict_get response ''answer'' '''') context_docs
   \<and> snd (grounding_loop (lower (dict_get response ''answer'' '''')) context_docs (0, 0)) =
       card (set (findall_word (lower (dict_get response ''answer'' '''')))) *
       length context_docs
   \<and> grounding_score (validate [''answer'' \<mapsto> ''the cat sat'']
        [\<lparr>page_content = ''the cat sat on the mat'', metadata = Map.empty\<rparr>]) = 1
   \<and> (grounding_score (validate response context_docs) < 1 / 2 \<longrightarrow>
        ''Low grounding score'' \<in> set (warnings (validate response context_docs)))"
proof -
  have ex: "grounding_score (validate [''answer'' \<mapsto> ''the cat sat'']
        [\<lparr>page_content = ''the cat sat on the mat'', metadata = Map.empty\<rparr>]) = 1"
    by code_simp
  show ?thesis
    using ex validate_low_warning [of response context_docs]
    by (simp add: validate_grounding check_grounding_spec grounding_loop_eq)
qed

theorem validate_grounding_score_witness:
  "grounding_score (validate [''answer'' \<mapsto> ''a dog'']
        [\<lparr>page_content = ''the cat'', metadata = Map.empty\<rparr>]) < 1 / 2
   \<and> ''Low grounding score'' \<in> set (warnings (validate [''answer'' \<mapsto> ''a dog'']
        [\<lparr>page_content = ''the cat'', metadata = Map.empty\<rparr>]))"
proof -
  have h: "grounding_score (validate [''answer'' \<mapsto> ''a dog'']
        [\<lparr>page_content = ''the cat'', metadata = Map.empty\<rparr>]) < 1 / 2"
    by code_simp
  from validate_grounding_score [of "[''answer'' \<mapsto> ''a dog'']"
        "[\<lparr>page_content = ''the cat'', metadata = Map.empty\<rparr>]"] h
  show ?thesis by blast
qed

text \<open>
  Claim C3. The quality score that \<open>validate\<close> returns is the grounding score, plus
  \<open>0.2\<close> when the whitespace-split word count of the answer lies in \<open>[50, 500]\<close>, minus
  \<open>0.3\<close> when it is below \<open>20\<close> or above \<open>1000\<close>, clamped to \<open>[0, 1]\<close>. The right-hand
  side does not mention the character-length penalties of the two length checks: the
  last assignment overwrites them.
\<close>

theorem validate_quality_score:
  "quality_score (validate response context_docs) =
     (let g = grounding_score (validate response context_docs);
          n = length (split_ws (dict_get response ''answer'' ''''));
          bonus = (if 50 \<le> n \<and> n \<le> 500 then 2 / 10 else 0);
          penalty = (if n < 20 \<or> 1000 < n then 3 / 10 else 0)
      in max 0 (min 1 (g + bonus - penalty)))"
  by (simp add: validate_quality validate_grounding calculate_quality_score_def Let_def)

theorem validate_quality_score_witness:
  "quality_score (validate [''answer'' \<mapsto> ''the cat'']
      [\<lparr>page_content = ''the cat sat on the mat'', metadata = Map.empty\<rparr>]) = 7 / 10"
proof -
  have g: "grounding_score (validate [''answer'' \<mapsto> ''the cat'']
      [\<lparr>page_content = ''the cat sat on the mat'', metadata = Map.empty\<rparr>]) = 1"
    by code_simp
  have n: "length (split_ws (dict_get [''answer'' \<mapsto> ''the cat''] ''answer'' '''')) = 2"
    by code_simp
  show ?thesis
    using validate_quality_score [of "[''answer'' \<mapsto> ''the cat'']"
        "[\<lparr>page_content = ''the cat sat on the mat'', metadata = Map.empty\<rparr>]"]
    by (simp add: g n Let_def)
qed

text \<open>
  Claim C10. \<open>validate\<close> is total. On a response without the key \<open>answer\<close> the answer is
  the empty string: the result carries the warning \<open>Answer too short\<close>, grounding score
  \<open>0\<close> and quality score \<open>0\<close>. In every result \<open>is_valid\<close> is true.
\<close>

theorem validate_missing_answer:
  "(response ''answer'' = None \<longrightarrow>
      ''Answer too short'' \<in> set (warnings (validate response context_docs))
      \<and> grounding_score (validate response context_docs) = 0
      \<and> quality_score (validate response context_docs) = 0)
   \<and> is_valid (validate response context_docs)"
proof -
  have "response ''answer'' = None \<Longrightarrow> dict_get response ''answer'' '''' = []"
    by (simp add: dict_get_def)
  then show ?thesis
    using validate_short_warning [of response context_docs]
    by (auto simp add: validate_is_valid validate_grounding validate_quality
        check_grounding_empty_answer calculate_quality_score_def split_ws_def)
qed

theorem validate_missing_answer_witness:
  "Map.empty ''answer'' = (None :: string option)
   \<and> ''Answer too short'' \<in> set (warnings (validate Map.empty
        [\<lparr>page_content = ''the cat'', metadata = Map.empty\<rparr>]))
   \<and> grounding_score (validate Map.empty
        [\<lparr>page_content = ''the cat'', metadata = Map.empty\<rparr>]) = 0
   \<and> quality_score (validate Map.empty
        [\<lparr>page_content = ''the cat'', metadata = Map.empty\<rparr>]) = 0
   \<and> is_valid (validate Map.empty [\<lparr>page_content = ''the cat'', metadata = Map.empty\<rparr>])"
  using validate_missing_answer [of Map.empty
      "[\<lparr>page_content = ''the cat'', metadata = Map.empty\<rparr>]"]
  by simp

section \<open>Properties of the metadata enricher\<close>

text \<open>
  Claim C7. Content-type classification is a total single-label function on the
  lower-cased chunk text with first-match-wins priority: \<open>code\<close> if \<open>class\<close>, \<open>def\<close> followed
  by a space, \<open>function\<close> or \<open>import\<close> occurs; else \<open>academic\<close> if \<open>abstract\<close>,
  \<open>introduction\<close> or \<open>methodology\<close> occurs; else \<open>meeting_notes\<close> if \<open>meeting\<close> or \<open>agenda\<close>
  occurs; else \<open>policy\<close> if \<open>policy\<close> or \<open>procedure\<close> occurs; else \<open>general\<close>. A text with
  both \<open>def\<close> plus space and \<open>policy\<close> is \<open>code\<close>.
\<close>

theorem identify_content_type_priority:
  "identify_content_type document =
     (let c = lower (page_content document);
          code = (contains ''class'' c \<or> contains ''def '' c \<or> contains ''function'' c
                  \<or> contains ''import'' c);
          academic = (contains ''abstract'' c \<or> contains ''introduction'' c
                  \<or> contains ''methodology'' c);
          meeting = (contains ''meeting'' c \<or> contains ''agenda'' c);
          policy = (contains ''policy'' c \<or> contains ''procedure'' c)
      in if code then ''code''
         else if academic then ''academic''
         else if meeting then ''meeting_notes''
         else if policy then ''policy''
         else ''general'')
   \<and> identify_content_type document \<in>
       {''code'', ''academic'', ''meeting_notes'', ''policy'', ''general''}
   \<and> (contains ''def '' (lower (page_content document))
        \<and> contains ''policy'' (lower (page_content document)) \<longrightarrow>
        identify_content_type document = ''code'')"
  by (simp add: identify_content_type_def Let_def)

theorem identify_content_type_priority_witness:
  "contains ''def '' (lower (page_content \<lparr>page_content = ''Policy: def f'', metadata = Map.empty\<rparr>))
   \<and> contains ''policy'' (lower (page_content \<lparr>page_content = ''Policy: def f'', metadata = Map.empty\<rparr>))
   \<and> identify_content_type \<lparr>page_content = ''Policy: def f'', metadata = Map.empty\<rparr> = ''code''"
proof -
  have h1: "contains ''def '' (lower (page_content \<lparr>page_content = ''Policy: def f'', metadata = Map.empty\<rparr>))"
    by code_simp
  have h2: "contains ''policy'' (lower (page_content \<lparr>page_content = ''Policy: def f'', metadata = Map.empty\<rparr>))"
    by code_simp
  from identify_content_type_priority [of "\<lparr>page_content = ''Policy: def f'', metadata = Map.empty\<rparr>"] h1 h2
  show ?thesis by blast
qed

lemma extract_loop_other:
  "k \<notin> fst ` set ps \<Longrightarrow> extract_loop findall to_list text ps m k = m k"
  by (induction ps arbitrary: m) (auto simp add: Let_def)

lemma extract_loop_key:
  "distinct (map fst ps) \<Longrightarrow> (k, p) \<in> set ps \<Longrightarrow>
   extract_loop findall to_list text ps m k =
     (if findall p text \<noteq> [] then Some (to_list (set (findall p text))) else m k)"
proof (induction ps arbitrary: m)
  case Nil
  then show ?case by simp
next
  case (Cons a ps)
  obtain k' p' where a: "a = (k', p')" by (cases a)
  show ?case
  proof (cases "(k, p) = a")
    case True
    from Cons.prems(1) have "fst a \<notin> fst ` set ps" by simp
    moreover from True have "fst a = k" by auto
    ultimately have "k \<notin> fst ` set ps" by simp
    with True a show ?thesis by (simp add: extract_loop_other Let_def)
  next
    case False
    with Cons.prems a have "(k, p) \<in> set ps" "k \<noteq> k'" "distinct (map fst ps)"
      by (auto simp add: rev_image_eqI)
    with Cons.IH [of "if findall p' text \<noteq> [] then m(k' \<mapsto> to_list (set (findall p' text))) else m"] a
    show ?thesis by (simp add: Let_def)
  qed
qed

lemma extract_entities_key:
  "(k, p) \<in> set entity_patters \<Longrightarrow>
   extract_entities findall to_list text k =
     (if findall p text \<noteq> [] then Some (to_list (set (findall p text))) else None)"
  unfolding extract_entities_def
  by (subst extract_loop_key [where p = p]) (simp_all add: entity_patters_def)

lemma extract_entities_dom:
  "dom (extract_entities findall to_list text) \<subseteq> {''email'', ''phone'', ''date'', ''url''}"
proof
  fix k assume k: "k \<in> dom (extract_entities findall to_list text)"
  show "k \<in> {''email'', ''phone'', ''date'', ''url''}"
  proof (rule ccontr)
    assume "k \<notin> {''email'', ''phone'', ''date'', ''url''}"
    then have "k \<notin> fst ` set entity_patters" by (simp add: entity_patters_def)
    then have "extract_entities findall to_list text k = None"
      by (simp add: extract_entities_def extract_loop_other)
    with k show False by auto
  qed
qed

text \<open>
  Claim C8. Entity extraction applies the four patterns independently. For each entity
  type the stored list holds exactly the distinct matches of its pattern; a type whose
  pattern has no match is absent from the map, and no other key is present. The
  order of a stored list is that of the set iteration \<open>to_list\<close>: two iteration orders
  give maps that agree as sets on every key.
\<close>

theorem extract_entities_sets:
  assumes "\<forall>S. finite S \<longrightarrow> set (to_list S) = S \<and> distinct (to_list S)"
    and "\<forall>S. finite S \<longrightarrow> set (to_list' S) = S \<and> distinct (to_list' S)"
  shows "(\<forall>(k, p) \<in> set entity_patters.
            (findall p text = [] \<longrightarrow> extract_entities findall to_list text k = None)
          \<and> (findall p text \<noteq> [] \<longrightarrow>
               (\<exists>ms. extract_entities findall to_list text k = Some ms
                  \<and> set ms = set (findall p text) \<and> distinct ms)))
       \<and> dom (extract_entities findall to_list text) \<subseteq> {''email'', ''phone'', ''date'', ''url''}
       \<and> (\<forall>k. map_option set (extract_entities findall to_list text k) =
               map_option set (extract_entities findall to_list' text k))"
proof (intro conjI)
  show "\<forall>(k, p) \<in> set entity_patters.
            (findall p text = [] \<longrightarrow> extract_entities findall to_list text k = None)
          \<and> (findall p text \<noteq> [] \<longrightarrow>
               (\<exists>ms. extract_entities findall to_list text k = Some ms
                  \<and> set ms = set (findall p text) \<and> distinct ms))"
    using assms(1) by (auto simp add: extract_entities_key)
  show "dom (extract_entities findall to_list text) \<subseteq> {''email'', ''phone'', ''date'', ''url''}"
    by (rule extract_entities_dom)
  show "\<forall>k. map_option set (extract_entities findall to_list text k) =
               map_option set (extract_entities findall to_list' text k)"
  proof
    fix k
    show "map_option set (extract_entities findall to_list text k) =
               map_option set (extract_entities findall to_list' text k)"
    proof (cases "k \<in> fst ` set entity_patters")
      case True
      then obtain p where "(k, p) \<in> set entity_patters" by auto
      then show ?thesis using assms by (simp add: extract_entities_key)
    next
      case False
      then show ?thesis by (simp add: extract_entities_def extract_loop_other)
    qed
  qed
qed



theorem extract_entities_sets_witness:
  "(\<exists>ms. extract_entities
          (\<lambda>p t. if p = EmailPattern then [''a@b.io'', ''c@d.io'', ''a@b.io''] else [])
          sorted_list_of_set ''a@b.io c@d.io a@b.io'' ''email'' = Some ms
        \<and> set ms = set [''a@b.io'', ''c@d.io'', ''a@b.io''] \<and> distinct ms)
   \<and> extract_entities
          (\<lambda>p t. if p = EmailPattern then [''a@b.io'', ''c@d.io'', ''a@b.io''] else [])
          sorted_list_of_set ''a@b.io c@d.io a@b.io'' ''phone'' = None"
proof -
  let ?f = "\<lambda>(p :: pattern) (t :: string).
              if p = EmailPattern then [''a@b.io'', ''c@d.io'', ''a@b.io''] else []"
  have h1: "\<forall>S :: string set. finite S \<longrightarrow>
      set (sorted_list_of_set S) = S \<and> distinct (sorted_list_of_set S)"
    by simp
  have h2: "\<forall>S :: string set. finite S \<longrightarrow>
      set (rev (sorted_list_of_set S)) = S \<and> distinct (rev (sorted_list_of_set S))"
    by simp
  have m1: "(''email'', EmailPattern) \<in> set entity_patters"
    and m2: "(''phone'', PhonePattern) \<in> set entity_patters"
    by (simp_all add: entity_patters_def)
  note t = extract_entities_sets [OF h1 h2, of ?f "''a@b.io c@d.io a@b.io''"]
  from t have a: "\<forall>(k, p) \<in> set entity_patters.
            (?f p ''a@b.io c@d.io a@b.io'' = [] \<longrightarrow>
               extract_entities ?f sorted_list_of_set ''a@b.io c@d.io a@b.io'' k = None)
          \<and> (?f p ''a@b.io c@d.io a@b.io'' \<noteq> [] \<longrightarrow>
               (\<exists>ms. extract_entities ?f sorted_list_of_set ''a@b.io c@d.io a@b.io'' k = Some ms
                  \<and> set ms = set (?f p ''a@b.io c@d.io a@b.io'') \<and> distinct ms))"
    by (rule conjunct1)
  from bspec [OF a m1]
  have e: "\<exists>ms. extract_entities ?f sorted_list_of_set ''a@b.io c@d.io a@b.io'' ''email'' = Some ms
        \<and> set ms = set [''a@b.io'', ''c@d.io'', ''a@b.io''] \<and> distinct ms"
    by (simp del: set_simps list.set)
  from bspec [OF a m2]
  have ph: "extract_entities ?f sorted_list_of_set ''a@b.io c@d.io a@b.io'' ''phone'' = None"
    by simp
  from e ph show ?thesis by (intro conjI)
qed

section \<open>Properties of the cache key\<close>

lemma sort_key_fst_unique:
  assumes "distinct (map fst xs)" and "distinct (map fst ys)" and "map_of xs = map_of ys"
  shows "sort_key fst xs = sort_key fst ys"
proof -
  from assms have s: "set xs = set ys"
    by (simp add: map_of_inject_set)
  from assms(1) have "inj_on fst (set xs)"
    by (simp add: distinct_map)
  with s have inj: "inj_on fst (set (sort_key fst xs) \<union> set (sort_key fst ys))"
    by simp
  have d: "distinct (map fst (sort_key fst zs))" if "distinct (map fst zs)" for zs :: "('a \<times> 'b) list"
    using that by (simp add: distinct_map)
  show ?thesis
    by (rule map_sorted_distinct_set_unique [OF inj])
       (simp_all add: d assms s)
qed

text \<open>
  Claim C6. \<open>generate_key\<close> is a function of its arguments, and it does not depend on
  the order in which the keyword arguments are supplied: two calls with the same prefix,
  the same positional arguments and keyword arguments that are equal as maps yield the
  same key. In particular \<open>(query="foo", top_k=5)\<close> and \<open>(top_k=5, query="foo")\<close> under
  the prefix \<open>query\<close> yield the same key, whatever the digest and \<open>repr\<close> are.
\<close>

theorem generate_key_order_independent:
  "(distinct (map fst kwargs) \<and> distinct (map fst kwargs') \<and> map_of kwargs = map_of kwargs' \<longrightarrow>
      generate_key md5_hexdigest repr_key repr prefix args kwargs =
      generate_key md5_hexdigest repr_key repr prefix args kwargs')
   \<and> generate_key md5 rk r ''query'' [] [(''query'', PStr ''foo''), (''top_k'', PInt 5)] =
     generate_key md5 rk r ''query'' [] [(''top_k'', PInt 5), (''query'', PStr ''foo'')]"
proof -
  have "sort_key fst [(''query'', PStr ''foo''), (''top_k'', PInt 5)] =
        sort_key fst [(''top_k'', PInt 5), (''query'', PStr ''foo'')]"
    by (rule sort_key_fst_unique) (simp_all add: fun_eq_iff)
  then show ?thesis
    by (auto simp add: generate_key_def dest: sort_key_fst_unique)
qed

theorem generate_key_order_independent_witness:
  "distinct (map fst [(''b'', 2 :: nat), (''a'', 1)]) \<and> distinct (map fst [(''a'', 1 :: nat), (''b'', 2)])
   \<and> map_of [(''b'', 2 :: nat), (''a'', 1)] = map_of [(''a'', 1), (''b'', 2)]
   \<and> generate_key id id (\<lambda>n. replicate n CHR ''x'') ''p'' [3] [(''b'', 2), (''a'', 1)] =
     generate_key id id (\<lambda>n. replicate n CHR ''x'') ''p'' [3] [(''a'', 1), (''b'', 2)]
   \<and> generate_key id id (\<lambda>n. replicate n CHR ''x'') ''p'' [3] [(''a'', 1), (''b'', 2)] =
       ''p:(xxx,):[(a, x), (b, xx)]''"
proof -
  have h: "distinct (map fst [(''b'', 2 :: nat), (''a'', 1)])
      \<and> distinct (map fst [(''a'', 1 :: nat), (''b'', 2)])
      \<and> map_of [(''b'', 2 :: nat), (''a'', 1)] = map_of [(''a'', 1), (''b'', 2)]"
    by (simp add: fun_eq_iff)
  have v: "generate_key id id (\<lambda>n. replicate n CHR ''x'') ''p'' [3] [(''a'', 1), (''b'', 2)] =
       ''p:(xxx,):[(a, x), (b, xx)]''"
    by code_simp
  from generate_key_order_independent [of "[(''b'', 2 :: nat), (''a'', 1)]" "[(''a'', 1), (''b'', 2)]"
      id id "\<lambda>n. replicate n CHR ''x''" "''p''" "[3]"] h v
  show ?thesis by blast
qed

section \<open>Properties of the document processor\<close>

lemma concat_read_blocks: "concat (read_blocks data) = data"
proof (induction data rule: read_blocks.induct)
  case (1 data)
  show ?case
  proof (cases "take 4096 data = []")
    case True
    then have "data = []" by (cases data) simp_all
    then show ?thesis by (subst read_blocks.simps) simp
  next
    case False
    with "1" have "concat (read_blocks (drop 4096 data)) = drop 4096 data" by simp
    with False show ?thesis by (subst read_blocks.simps) (simp add: Let_def)
  qed
qed

lemma fold_feed: "fold (\<lambda>byte_block fed. fed @ byte_block) blocks acc = acc @ concat blocks"
  by (induction blocks arbitrary: acc) simp_all

lemma calculate_file_hash_eq:
  "fs (path_str file_path) = Some data \<Longrightarrow>
   calculate_file_hash sha256 fs file_path = Inr (sha256 data)"
  by (simp add: calculate_file_hash_def fold_feed concat_read_blocks)

lemma and_then_Inr:
  "and_then r f = Inr y \<longleftrightarrow> (\<exists>x. r = Inr x \<and> f x = Inr y)"
  by (cases r) (simp_all add: and_then_def)

lemma and_then_Inl:
  "and_then r f = Inl e \<longleftrightarrow> r = Inl e \<or> (\<exists>x. r = Inr x \<and> f x = Inl e)"
  by (cases r) (simp_all add: and_then_def)

lemma validate_file_Inr:
  "validate_file st fs file_path = Inr u \<longleftrightarrow>
     (\<exists>data. fs (path_str file_path) = Some data
        \<and> suffix file_path \<in> set (SUPPORTED_FORMATS st)
        \<and> length data \<le> MAX_DOCUMENT_SIZE_MB st * 1048576)"
proof -
  have "(of_nat n :: rat) / (1024 * 1024) > of_nat m \<longleftrightarrow> m * 1048576 < n" for n m :: nat
  proof -
    have "(of_nat n :: rat) / (1024 * 1024) > of_nat m \<longleftrightarrow> (of_nat (m * 1048576) :: rat) < of_nat n"
      by (simp add: field_simps)
    then show ?thesis by (simp only: of_nat_less_iff)
  qed
  then show ?thesis
    by (auto simp add: validate_file_def Let_def not_less split: option.splits)
qed

lemma enrich_metadata_Inr:
  assumes "enrich_metadata lib fs chunks file_path custom = Inr out"
  shows "\<exists>data. fs (path_str file_path) = Some data \<and>
     out = map (\<lambda>(i, chunk).
                 chunk\<lparr>metadata := metadata chunk ++
                   ([''source'' \<mapsto> MStr (path_str file_path),
                     ''file_name'' \<mapsto> MStr (name file_path),
                     ''file_type'' \<mapsto> MStr (suffix file_path),
                     ''file_hash'' \<mapsto> MStr (sha256_hexdigest lib data),
                     ''chunk_index'' \<mapsto> MInt i,
                     ''total_chunks'' \<mapsto> MInt (length chunks),
                     ''processed_at'' \<mapsto> MStr (now_isoformat lib i),
                     ''chunk_size'' \<mapsto> MInt (length (page_content chunk))]
                    ++ custom)\<rparr>)
               (enumerate 0 chunks)"
proof (cases "fs (path_str file_path)")
  case None
  with assms show ?thesis
    by (simp add: enrich_metadata_def calculate_file_hash_def and_then_def)
next
  case (Some data)
  with assms show ?thesis
    by (auto simp add: enrich_metadata_def calculate_file_hash_eq and_then_def)
qed

lemma enriched_fields:
  assumes "dom custom \<inter> generated_keys = {}"
  shows "metadata (ch\<lparr>metadata := m ++
               ([''source'' \<mapsto> a, ''file_name'' \<mapsto> b, ''file_type'' \<mapsto> c,
                 ''file_hash'' \<mapsto> h, ''chunk_index'' \<mapsto> i, ''total_chunks'' \<mapsto> n,
                 ''processed_at'' \<mapsto> t, ''chunk_size'' \<mapsto> z] ++ custom)\<rparr>)
             ''chunk_index'' = Some i
       \<and> metadata (ch\<lparr>metadata := m ++
               ([''source'' \<mapsto> a, ''file_name'' \<mapsto> b, ''file_type'' \<mapsto> c,
                 ''file_hash'' \<mapsto> h, ''chunk_index'' \<mapsto> i, ''total_chunks'' \<mapsto> n,
                 ''processed_at'' \<mapsto> t, ''chunk_size'' \<mapsto> z] ++ custom)\<rparr>)
             ''total_chunks'' = Some n
       \<and> metadata (ch\<lparr>metadata := m ++
               ([''source'' \<mapsto> a, ''file_name'' \<mapsto> b, ''file_type'' \<mapsto> c,
                 ''file_hash'' \<mapsto> h, ''chunk_index'' \<mapsto> i, ''total_chunks'' \<mapsto> n,
                 ''processed_at'' \<mapsto> t, ''chunk_size'' \<mapsto> z] ++ custom)\<rparr>)
             ''file_hash'' = Some h"
proof -
  from assms have "custom ''chunk_index'' = None" "custom ''total_chunks'' = None"
    "custom ''file_hash'' = None"
    by (auto simp add: generated_keys_def)
  then show ?thesis
    by (simp add: map_add_def)
qed

lemma process_document_Inr:
  assumes "process_document lib st fs self file_path metadata_arg = Inr out"
  shows "\<exists>chunks. enrich_metadata lib fs chunks file_path
           (case metadata_arg of None \<Rightarrow> Map.empty | Some m \<Rightarrow> m) = Inr out"
  using assms
  by (auto simp add: process_document_def and_then_Inr split: sum.splits)

text \<open>
  Claim C4. For every successfully processed document whose custom metadata does not
  contain a generated key, the returned chunks carry the \<open>chunk_index\<close> values
  \<open>0, 1, ..., total_chunks - 1\<close> in order, every chunk's \<open>total_chunks\<close> is the length of
  the sequence, and every chunk's \<open>file_hash\<close> is the SHA-256 hex digest of the whole byte
  content of the source file: the same on all chunks, and a function of the bytes only.
\<close>

theorem process_document_chunk_metadata:
  assumes "process_document lib st fs self file_path metadata_arg = Inr chunks"
    and "dom (case metadata_arg of None \<Rightarrow> Map.empty | Some m \<Rightarrow> m) \<inter> generated_keys = {}"
  shows "\<exists>data. fs (path_str file_path) = Some data
     \<and> map (\<lambda>c. metadata c ''chunk_index'') chunks = map (\<lambda>i. Some (MInt i)) [0..<length chunks]
     \<and> (\<forall>c \<in> set chunks.
           metadata c ''total_chunks'' = Some (MInt (length chunks))
         \<and> metadata c ''file_hash'' = Some (MStr (sha256_hexdigest lib data)))"
proof -
  let ?custom = "case metadata_arg of None \<Rightarrow> Map.empty | Some m \<Rightarrow> m"
  from process_document_Inr [OF assms(1)] obtain cs where
    "enrich_metadata lib fs cs file_path ?custom = Inr chunks" by blast
  from enrich_metadata_Inr [OF this] obtain data where
    d: "fs (path_str file_path) = Some data" and
    out: "chunks = map (\<lambda>(i, chunk).
                 chunk\<lparr>metadata := metadata chunk ++
                   ([''source'' \<mapsto> MStr (path_str file_path),
                     ''file_name'' \<mapsto> MStr (name file_path),
                     ''file_type'' \<mapsto> MStr (suffix file_path),
                     ''file_hash'' \<mapsto> MStr (sha256_hexdigest lib data),
                     ''chunk_index'' \<mapsto> MInt i,
                     ''total_chunks'' \<mapsto> MInt (length cs),
                     ''processed_at'' \<mapsto> MStr (now_isoformat lib i),
                     ''chunk_size'' \<mapsto> MInt (length (page_content chunk))]
                    ++ ?custom)\<rparr>)
               (enumerate 0 cs)"
    by blast
  from out have len: "length chunks = length cs" by simp
  have nth: "chunks ! i = (cs ! i)\<lparr>metadata := metadata (cs ! i) ++
                   ([''source'' \<mapsto> MStr (path_str file_path),
                     ''file_name'' \<mapsto> MStr (name file_path),
                     ''file_type'' \<mapsto> MStr (suffix file_path),
                     ''file_hash'' \<mapsto> MStr (sha256_hexdigest lib data),
                     ''chunk_index'' \<mapsto> MInt i,
                     ''total_chunks'' \<mapsto> MInt (length cs),
                     ''processed_at'' \<mapsto> MStr (now_isoformat lib i),
                     ''chunk_size'' \<mapsto> MInt (length (page_content (cs ! i)))]
                    ++ ?custom)\<rparr>" if "i < length cs" for i
    using that by (simp add: out nth_enumerate_eq)
  have idx: "map (\<lambda>c. metadata c ''chunk_index'') chunks = map (\<lambda>i. Some (MInt i)) [0..<length chunks]"
  proof (rule nth_equalityI)
    show "length (map (\<lambda>c. metadata c ''chunk_index'') chunks) =
          length (map (\<lambda>i. Some (MInt i)) [0..<length chunks])"
      by simp
  next
    fix i assume "i < length (map (\<lambda>c. metadata c ''chunk_index'') chunks)"
    then have i: "i < length cs" by (simp add: len)
    then have "metadata (chunks ! i) ''chunk_index'' = Some (MInt i)"
      by (simp only: nth [OF i] enriched_fields [OF assms(2)])
    with i show "map (\<lambda>c. metadata c ''chunk_index'') chunks ! i =
          map (\<lambda>i. Some (MInt i)) [0..<length chunks] ! i"
      by (simp add: len)
  qed
  have rest: "\<forall>c \<in> set chunks.
           metadata c ''total_chunks'' = Some (MInt (length chunks))
         \<and> metadata c ''file_hash'' = Some (MStr (sha256_hexdigest lib data))"
  proof
    fix c assume "c \<in> set chunks"
    then obtain i where i: "i < length cs" and c: "c = chunks ! i"
      by (auto simp add: in_set_conv_nth len)
    show "metadata c ''total_chunks'' = Some (MInt (length chunks))
         \<and> metadata c ''file_hash'' = Some (MStr (sha256_hexdigest lib data))"
      unfolding c len
      by (simp only: nth [OF i] enriched_fields [OF assms(2)] simp_thms)
  qed
  from d idx rest show ?thesis by blast
qed


theorem process_document_chunk_metadata_witness:
  "\<exists>chunks. process_document example_ingestion default_settings example_fs example_processor
       example_path None = Inr chunks
     \<and> length chunks = 2
     \<and> map (\<lambda>c. metadata c ''chunk_index'') chunks = [Some (MInt 0), Some (MInt 1)]
     \<and> map (\<lambda>c. metadata c ''total_chunks'') chunks = [Some (MInt 2), Some (MInt 2)]
     \<and> map (\<lambda>c. metadata c ''file_hash'') chunks =
         [Some (MStr ''sha256 of hello world''), Some (MStr ''sha256 of hello world'')]"
proof -
  have v: "validate_file default_settings example_fs example_path = Inr ()"
    by (simp add: validate_file_def default_settings_def example_fs_def example_path_def)
  have l: "load_document example_ingestion example_processor example_path =
      Inr [\<lparr>page_content = ''hello world'', metadata = Map.empty\<rparr>]"
    by (simp add: load_document_def example_ingestion_def example_processor_def example_path_def)
  have h: "calculate_file_hash (sha256_hexdigest example_ingestion) example_fs example_path =
      Inr ''sha256 of hello world''"
    by (simp add: calculate_file_hash_eq [where data = "''hello world''"] example_fs_def
        example_path_def example_ingestion_def)
  have s: "split_documents example_ingestion sp documents =
      Inr [\<lparr>page_content = ''hello'', metadata = Map.empty\<rparr>,
           \<lparr>page_content = ''world'', metadata = Map.empty\<rparr>]"
    for sp documents by (simp add: example_ingestion_def)
  obtain chunks where p: "process_document example_ingestion default_settings example_fs
      example_processor example_path None = Inr chunks" and len: "length chunks = 2"
    by (simp add: process_document_def enrich_metadata_def and_then_def v l s h)
  have sha: "sha256_hexdigest example_ingestion ''hello world'' = ''sha256 of hello world''"
    by (simp add: example_ingestion_def)
  have c: "dom (case None :: (string \<rightharpoonup> mval) option of None \<Rightarrow> Map.empty | Some m \<Rightarrow> m)
      \<inter> generated_keys = {}"
    by simp
  from process_document_chunk_metadata [OF p c] obtain data where
    d: "example_fs (path_str example_path) = Some data" and
    i: "map (\<lambda>c. metadata c ''chunk_index'') chunks = map (\<lambda>i. Some (MInt i)) [0..<length chunks]" and
    r: "\<forall>c \<in> set chunks.
           metadata c ''total_chunks'' = Some (MInt (length chunks))
         \<and> metadata c ''file_hash'' = Some (MStr (sha256_hexdigest example_ingestion data))"
    by blast
  from d have data: "data = ''hello world''"
    by (simp add: example_fs_def example_path_def)
  from len obtain a b where ab: "chunks = [a, b]"
    by (cases chunks; cases "tl chunks") auto
  have two: "[0..<2] = [0, Suc 0]" by (simp add: upt_rec)
  from i r show ?thesis
    unfolding data
    by (intro exI [of _ chunks]) (simp add: p ab two sha)
qed

lemma load_document_Inr:
  "load_document lib self file_path = Inr documents \<longleftrightarrow>
     (\<exists>loader_class. loaders self (suffix file_path) = Some loader_class
        \<and> run_loader lib loader_class (path_str file_path) = Inr documents)"
  by (simp add: load_document_def split: option.splits)

lemma enrich_metadata_succeeds:
  "fs (path_str file_path) = Some data \<Longrightarrow>
   \<exists>out. enrich_metadata lib fs chunks file_path custom = Inr out"
  by (simp add: enrich_metadata_def calculate_file_hash_eq and_then_def)

lemma process_document_succeeds_iff:
  "(\<exists>out. process_document lib st fs self file_path metadata_arg = Inr out) \<longleftrightarrow>
     (\<exists>data loader_class documents chunks.
        fs (path_str file_path) = Some data
      \<and> suffix file_path \<in> set (SUPPORTED_FORMATS st)
      \<and> length data \<le> MAX_DOCUMENT_SIZE_MB st * 1048576
      \<and> loaders self (suffix file_path) = Some loader_class
      \<and> run_loader lib loader_class (path_str file_path) = Inr documents
      \<and> split_documents lib (text_splitter self) documents = Inr chunks)"
proof
  assume "\<exists>out. process_document lib st fs self file_path metadata_arg = Inr out"
  then obtain out where "process_document lib st fs self file_path metadata_arg = Inr out" ..
  then obtain u documents chunks where
    "validate_file st fs file_path = Inr u"
    "load_document lib self file_path = Inr documents"
    "split_documents lib (text_splitter self) documents = Inr chunks"
    by (auto simp add: process_document_def and_then_Inr split: sum.splits)
  then show "\<exists>data loader_class documents chunks.
        fs (path_str file_path) = Some data
      \<and> suffix file_path \<in> set (SUPPORTED_FORMATS st)
      \<and> length data \<le> MAX_DOCUMENT_SIZE_MB st * 1048576
      \<and> loaders self (suffix file_path) = Some loader_class
      \<and> run_loader lib loader_class (path_str file_path) = Inr documents
      \<and> split_documents lib (text_splitter self) documents = Inr chunks"
    unfolding validate_file_Inr load_document_Inr by blast
next
  assume "\<exists>data loader_class documents chunks.
        fs (path_str file_path) = Some data
      \<and> suffix file_path \<in> set (SUPPORTED_FORMATS st)
      \<and> length data \<le> MAX_DOCUMENT_SIZE_MB st * 1048576
      \<and> loaders self (suffix file_path) = Some loader_class
      \<and> run_loader lib loader_class (path_str file_path) = Inr documents
      \<and> split_documents lib (text_splitter self) documents = Inr chunks"
  then obtain data loader_class documents chunks where
    d: "fs (path_str file_path) = Some data"
    and v: "validate_file st fs file_path = Inr ()"
    and l: "load_document lib self file_path = Inr documents"
    and s: "split_documents lib (text_splitter self) documents = Inr chunks"
    unfolding validate_file_Inr load_document_Inr by blast
  from d have "\<exists>out. enrich_metadata lib fs chunks file_path
       (case metadata_arg of None \<Rightarrow> Map.empty | Some m \<Rightarrow> m) = Inr out"
    by (rule enrich_metadata_succeeds)
  then obtain out where
    "enrich_metadata lib fs chunks file_path
       (case metadata_arg of None \<Rightarrow> Map.empty | Some m \<Rightarrow> m) = Inr out" ..
  with v l s have "process_document lib st fs self file_path metadata_arg = Inr out"
    by (simp add: process_document_def and_then_def)
  then show "\<exists>out. process_document lib st fs self file_path metadata_arg = Inr out" ..
qed

lemma process_document_Inl:
  "process_document lib st fs self file_path metadata_arg = Inl e \<Longrightarrow>
   is_DocumentProcessingError e"
  by (auto simp add: process_document_def split: sum.splits)

lemma process_document_validation_failure:
  "validate_file st fs file_path = Inl e \<Longrightarrow>
   process_document lib st fs self file_path metadata_arg =
     Inl (DocumentProcessingError (ProcessingFailed e))"
  by (simp add: process_document_def and_then_def)

lemma validate_file_fails_iff:
  "(\<exists>e. validate_file st fs file_path = Inl e) \<longleftrightarrow>
     (fs (path_str file_path) = None
      \<or> suffix file_path \<notin> set (SUPPORTED_FORMATS st)
      \<or> (\<exists>data. fs (path_str file_path) = Some data
            \<and> MAX_DOCUMENT_SIZE_MB st * 1048576 < length data))"
proof -
  have "(\<exists>e. validate_file st fs file_path = Inl e) \<longleftrightarrow>
        \<not> (\<exists>u. validate_file st fs file_path = Inr u)"
    by (cases "validate_file st fs file_path") simp_all
  then show ?thesis
    unfolding validate_file_Inr by (cases "fs (path_str file_path)") (auto simp add: not_le)
qed

lemma init_loaders_pptx:
  "DocumentProcessor_init mk st = Inr self \<Longrightarrow> loaders self ''.pptx'' = None"
  by (auto simp add: DocumentProcessor_init_def and_then_Inr)

text \<open>
  Claim C5, as the code has it. \<open>process_document\<close> raises nothing but
  \<open>DocumentProcessingError\<close>, and never returns a partial chunk list. It raises exactly
  when the file is missing, its extension is not in the supported list, its size exceeds
  the maximum, its extension has no mapped loader, the loader raises, or the splitter
  raises: every exception inside the method is re-raised as \<open>DocumentProcessingError\<close>.
  A missing file, an unsupported extension and an oversized file fail before any load
  attempt: the outcome is the same whatever the libraries, the processor and the custom
  metadata are. A \<open>.pptx\<close> file always fails on a processor built by the constructor.
\<close>

theorem process_document_failures:
  "(process_document lib st fs self file_path metadata_arg = Inl e \<longrightarrow>
      is_DocumentProcessingError e)
   \<and> ((\<exists>e. process_document lib st fs self file_path metadata_arg = Inl e) \<longleftrightarrow>
        (fs (path_str file_path) = None
         \<or> suffix file_path \<notin> set (SUPPORTED_FORMATS st)
         \<or> (\<exists>data. fs (path_str file_path) = Some data
               \<and> MAX_DOCUMENT_SIZE_MB st * 1048576 < length data)
         \<or> loaders self (suffix file_path) = None
         \<or> (\<exists>loader_class e. loaders self (suffix file_path) = Some loader_class
               \<and> run_loader lib loader_class (path_str file_path) = Inl e)
         \<or> (\<exists>loader_class documents e. loaders self (suffix file_path) = Some loader_class
               \<and> run_loader lib loader_class (path_str file_path) = Inr documents
               \<and> split_documents lib (text_splitter self) documents = Inl e)))
   \<and> (fs (path_str file_path) = None
         \<or> suffix file_path \<notin> set (SUPPORTED_FORMATS st)
         \<or> (\<exists>data. fs (path_str file_path) = Some data
               \<and> MAX_DOCUMENT_SIZE_MB st * 1048576 < length data) \<longrightarrow>
       process_document lib' st fs self' file_path metadata_arg' =
       process_document lib st fs self file_path metadata_arg)
   \<and> (suffix file_path = ''.pptx'' \<and> DocumentProcessor_init mk st' = Inr self \<longrightarrow>
       (\<exists>r. process_document lib st fs self file_path metadata_arg =
              Inl (DocumentProcessingError r)))"
proof (intro conjI)
  show "process_document lib st fs self file_path metadata_arg = Inl e \<longrightarrow>
      is_DocumentProcessingError e"
    by (simp add: process_document_Inl)
  have fails: "(\<exists>e. process_document lib st fs self file_path metadata_arg = Inl e) \<longleftrightarrow>
      \<not> (\<exists>out. process_document lib st fs self file_path metadata_arg = Inr out)"
    by (cases "process_document lib st fs self file_path metadata_arg") simp_all
  show "(\<exists>e. process_document lib st fs self file_path metadata_arg = Inl e) \<longleftrightarrow>
        (fs (path_str file_path) = None
         \<or> suffix file_path \<notin> set (SUPPORTED_FORMATS st)
         \<or> (\<exists>data. fs (path_str file_path) = Some data
               \<and> MAX_DOCUMENT_SIZE_MB st * 1048576 < length data)
         \<or> loaders self (suffix file_path) = None
         \<or> (\<exists>loader_class e. loaders self (suffix file_path) = Some loader_class
               \<and> run_loader lib loader_class (path_str file_path) = Inl e)
         \<or> (\<exists>loader_class documents e. loaders self (suffix file_path) = Some loader_class
               \<and> run_loader lib loader_class (path_str file_path) = Inr documents
               \<and> split_documents lib (text_splitter self) documents = Inl e))"
    unfolding fails process_document_succeeds_iff
  proof (cases "fs (path_str file_path)")
    case None
    then show "(\<not> (\<exists>data loader_class documents chunks.
        fs (path_str file_path) = Some data
      \<and> suffix file_path \<in> set (SUPPORTED_FORMATS st)
      \<and> length data \<le> MAX_DOCUMENT_SIZE_MB st * 1048576
      \<and> loaders self (suffix file_path) = Some loader_class
      \<and> run_loader lib loader_class (path_str file_path) = Inr documents
      \<and> split_documents lib (text_splitter self) documents = Inr chunks)) \<longleftrightarrow>
        (fs (path_str file_path) = None
         \<or> suffix file_path \<notin> set (SUPPORTED_FORMATS st)
         \<or> (\<exists>data. fs (path_str file_path) = Some data
               \<and> MAX_DOCUMENT_SIZE_MB st * 1048576 < length data)
         \<or> loaders self (suffix file_path) = None
         \<or> (\<exists>loader_class e. loaders self (suffix file_path) = Some loader_class
               \<and> run_loader lib loader_class (path_str file_path) = Inl e)
         \<or> (\<exists>loader_class documents e. loaders self (suffix file_path) = Some loader_class
               \<and> run_loader lib loader_class (path_str file_path) = Inr documents
               \<and> split_documents lib (text_splitter self) documents = Inl e))"
      by simp
  next
    case (Some data)
    show "(\<not> (\<exists>data loader_class documents chunks.
        fs (path_str file_path) = Some data
      \<and> suffix file_path \<in> set (SUPPORTED_FORMATS st)
      \<and> length data \<le> MAX_DOCUMENT_SIZE_MB st * 1048576
      \<and> loaders self (suffix file_path) = Some loader_class
      \<and> run_loader lib loader_class (path_str file_path) = Inr documents
      \<and> split_documents lib (text_splitter self) documents = Inr chunks)) \<longleftrightarrow>
        (fs (path_str file_path) = None
         \<or> suffix file_path \<notin> set (SUPPORTED_FORMATS st)
         \<or> (\<exists>data. fs (path_str file_path) = Some data
               \<and> MAX_DOCUMENT_SIZE_MB st * 1048576 < length data)
         \<or> loaders self (suffix file_path) = None
         \<or> (\<exists>loader_class e. loaders self (suffix file_path) = Some loader_class
               \<and> run_loader lib loader_class (path_str file_path) = Inl e)
         \<or> (\<exists>loader_class documents e. loaders self (suffix file_path) = Some loader_class
               \<and> run_loader lib loader_class (path_str file_path) = Inr documents
               \<and> split_documents lib (text_splitter self) documents = Inl e))"
    proof (cases "loaders self (suffix file_path)")
      case None
      then show ?thesis by simp
    next
      case (Some loader_class)
      note lc = this
      show ?thesis
      proof (cases "run_loader lib loader_class (path_str file_path)")
        case (Inl e)
        with lc show ?thesis by simp
      next
        case (Inr documents)
        show ?thesis
          by (cases "split_documents lib (text_splitter self) documents")
             (simp_all add: \<open>fs (path_str file_path) = Some data\<close> lc Inr not_le)
      qed
    qed
  qed
  show "fs (path_str file_path) = None
         \<or> suffix file_path \<notin> set (SUPPORTED_FORMATS st)
         \<or> (\<exists>data. fs (path_str file_path) = Some data
               \<and> MAX_DOCUMENT_SIZE_MB st * 1048576 < length data) \<longrightarrow>
       process_document lib' st fs self' file_path metadata_arg' =
       process_document lib st fs self file_path metadata_arg"
  proof
    assume "fs (path_str file_path) = None
         \<or> suffix file_path \<notin> set (SUPPORTED_FORMATS st)
         \<or> (\<exists>data. fs (path_str file_path) = Some data
               \<and> MAX_DOCUMENT_SIZE_MB st * 1048576 < length data)"
    then obtain e' where "validate_file st fs file_path = Inl e'"
      unfolding validate_file_fails_iff [symmetric] ..
    then show "process_document lib' st fs self' file_path metadata_arg' =
       process_document lib st fs self file_path metadata_arg"
      by (simp add: process_document_validation_failure)
  qed
  show "suffix file_path = ''.pptx'' \<and> DocumentProcessor_init mk st' = Inr self \<longrightarrow>
       (\<exists>r. process_document lib st fs self file_path metadata_arg =
              Inl (DocumentProcessingError r))"
  proof
    assume a: "suffix file_path = ''.pptx'' \<and> DocumentProcessor_init mk st' = Inr self"
    then have "loaders self ''.pptx'' = None"
      by (intro init_loaders_pptx [of mk st']) simp
    with a have n: "loaders self (suffix file_path) = None"
      by simp
    have "\<not> (\<exists>out. process_document lib st fs self file_path metadata_arg = Inr out)"
      unfolding process_document_succeeds_iff using n by simp
    then obtain e where e: "process_document lib st fs self file_path metadata_arg = Inl e"
      by (cases "process_document lib st fs self file_path metadata_arg") simp_all
    from process_document_Inl [OF e] obtain r where "e = DocumentProcessingError r"
      by (cases e) simp_all
    with e show "\<exists>r. process_document lib st fs self file_path metadata_arg =
              Inl (DocumentProcessingError r)"
      by blast
  qed
qed


theorem process_document_failures_witness:
  "(\<exists>r. process_document example_ingestion default_settings example_fs example_processor
       example_pptx None = Inl (DocumentProcessingError r))
   \<and> is_DocumentProcessingError
        (DocumentProcessingError (ProcessingFailed (DocumentProcessingError (NoLoader ''.pptx''))))
   \<and> process_document failing_ingestion (default_settings\<lparr>MAX_DOCUMENT_SIZE_MB := 0\<rparr>)
        example_fs example_processor example_path (Some [''author'' \<mapsto> MStr ''x'']) =
       process_document example_ingestion (default_settings\<lparr>MAX_DOCUMENT_SIZE_MB := 0\<rparr>)
        example_fs example_processor example_path None"
proof -
  have i: "DocumentProcessor_init (\<lambda>kwargs. Inr ()) default_settings = Inr example_processor"
    by (simp add: DocumentProcessor_init_def and_then_def example_processor_def)
  have x: "suffix example_pptx = ''.pptx''"
    by (simp add: example_pptx_def)
  have e: "process_document example_ingestion default_settings example_fs example_processor
       example_pptx None =
       Inl (DocumentProcessingError (ProcessingFailed (DocumentProcessingError (NoLoader ''.pptx''))))"
    by (simp add: process_document_def and_then_def validate_file_def load_document_def
        default_settings_def example_fs_def example_pptx_def example_processor_def)
  have big: "\<exists>data. example_fs (path_str example_path) = Some data
       \<and> MAX_DOCUMENT_SIZE_MB (default_settings\<lparr>MAX_DOCUMENT_SIZE_MB := 0\<rparr>) * 1048576
           < length data"
    by (simp add: example_fs_def example_path_def)
  note t1 = process_document_failures [of example_ingestion default_settings example_fs
      example_processor example_pptx None
      "DocumentProcessingError (ProcessingFailed (DocumentProcessingError (NoLoader ''.pptx'')))"
      example_ingestion example_processor None "\<lambda>kwargs. Inr ()" default_settings]
  note t2 = process_document_failures [of example_ingestion
      "default_settings\<lparr>MAX_DOCUMENT_SIZE_MB := 0\<rparr>" example_fs
      example_processor example_path None
      "DocumentProcessingError (ProcessingFailed (DocumentProcessingError (NoLoader ''.pptx'')))"
      failing_ingestion example_processor "Some [''author'' \<mapsto> MStr ''x'']"
      "\<lambda>kwargs. Inr ()" default_settings]
  from t1 e i x have a: "(\<exists>r. process_document example_ingestion default_settings example_fs
       example_processor example_pptx None = Inl (DocumentProcessingError r))
     \<and> is_DocumentProcessingError
        (DocumentProcessingError (ProcessingFailed (DocumentProcessingError (NoLoader ''.pptx''))))"
    by blast
  from t2 big have b: "process_document failing_ingestion
        (default_settings\<lparr>MAX_DOCUMENT_SIZE_MB := 0\<rparr>)
        example_fs example_processor example_path (Some [''author'' \<mapsto> MStr ''x'']) =
       process_document example_ingestion (default_settings\<lparr>MAX_DOCUMENT_SIZE_MB := 0\<rparr>)
        example_fs example_processor example_path None"
    by blast
  from a b show ?thesis by blast
qed

text \<open>
  Claim C5 as stated fails: a supported, small, existing text file whose loader raises
  makes \<open>process_document\<close> raise \<open>DocumentProcessingError\<close> although none of the four
  conditions of the claim holds.
\<close>

theorem process_document_loader_failure_counterexample:
  "process_document failing_ingestion default_settings example_fs example_processor
       example_path None =
     Inl (DocumentProcessingError (ProcessingFailed (Exception ''UnicodeDecodeError'')))
   \<and> \<not> ((\<exists>r. process_document failing_ingestion default_settings example_fs example_processor
             example_path None = Inl (DocumentProcessingError r)) \<longleftrightarrow>
          (example_fs (path_str example_path) = None
           \<or> suffix example_path \<notin> set (SUPPORTED_FORMATS default_settings)
           \<or> (\<exists>data. example_fs (path_str example_path) = Some data
                 \<and> MAX_DOCUMENT_SIZE_MB default_settings * 1048576 < length data)
           \<or> loaders example_processor (suffix example_path) = None))"
proof -
  have e: "process_document failing_ingestion default_settings example_fs example_processor
       example_path None =
     Inl (DocumentProcessingError (ProcessingFailed (Exception ''UnicodeDecodeError'')))"
    by (simp add: process_document_def and_then_def validate_file_def load_document_def
        default_settings_def example_fs_def example_path_def example_processor_def
        failing_ingestion_def example_ingestion_def)
  have n: "\<not> (example_fs (path_str example_path) = None
           \<or> suffix example_path \<notin> set (SUPPORTED_FORMATS default_settings)
           \<or> (\<exists>data. example_fs (path_str example_path) = Some data
                 \<and> MAX_DOCUMENT_SIZE_MB default_settings * 1048576 < length data)
           \<or> loaders example_processor (suffix example_path) = None)"
    by (simp add: default_settings_def example_fs_def example_path_def example_processor_def)
  from e n show ?thesis by simp
qed

text \<open>
  Claim C2, the configured overlap. The constructor passes the overlap setting to the
  splitter under the keyword \<open>chunnk_overlap\<close>: no \<open>chunk_overlap\<close> argument is passed, and
  a splitter class that declares its parameters without that misspelled name rejects the
  call with \<open>TypeError\<close>, so that no processor is built.
\<close>

theorem init_misspells_chunk_overlap:
  "map_of (splitter_kwargs st) ''chunk_overlap'' = None
   \<and> map_of (splitter_kwargs st) ''chunnk_overlap'' = Some (IntArg (CHUNK_OVERLAP st))
   \<and> (''chunnk_overlap'' \<notin> set params \<longrightarrow>
        DocumentProcessor_init (strict_callable params build) st = Inl (Exception ''TypeError''))"
  by (simp add: splitter_kwargs_def DocumentProcessor_init_def strict_callable_def and_then_def)

theorem init_misspells_chunk_overlap_witness:
  "''chunnk_overlap'' \<notin> set [''chunk_size'', ''chunk_overlap'', ''length_function'',
       ''keep_separator'', ''add_start_index'', ''strip_whitespace'', ''separators'',
       ''is_separator_regex'']
   \<and> DocumentProcessor_init
        (strict_callable [''chunk_size'', ''chunk_overlap'', ''length_function'',
           ''keep_separator'', ''add_start_index'', ''strip_whitespace'', ''separators'',
           ''is_separator_regex''] (\<lambda>bound. bound)) default_settings =
       Inl (Exception ''TypeError'')"
proof -
  have h: "''chunnk_overlap'' \<notin> set [''chunk_size'', ''chunk_overlap'', ''length_function'',
       ''keep_separator'', ''add_start_index'', ''strip_whitespace'', ''separators'',
       ''is_separator_regex'']"
    by simp
  from init_misspells_chunk_overlap [of default_settings
      "[''chunk_size'', ''chunk_overlap'', ''length_function'',
       ''keep_separator'', ''add_start_index'', ''strip_whitespace'', ''separators'',
       ''is_separator_regex'']" "\<lambda>bound. bound"] h
  show ?thesis by blast
qed

section \<open>Properties of the cache layer\<close>

lemma try_except_return:
  "\<exists>r w'. try_except body (\<lambda>e. io_return d) w = (Inr r, w')"
  by (auto simp add: try_except_def io_return_def split: prod.splits sum.splits)

lemma try_except_failed:
  "body w = (Inl e, w') \<Longrightarrow> try_except body (\<lambda>e. io_return d) w = (Inr d, w')"
  by (simp add: try_except_def io_return_def)

lemma cache_get_returns: "\<exists>r w'. cache_get lib self key w = (Inr r, w')"
  unfolding cache_get_def using try_except_return
  by (auto simp add: io_return_def)

lemma cache_set_returns: "\<exists>b w'. cache_set lib self key val ttl_arg w = (Inr b, w')"
  unfolding cache_set_def using try_except_return
  by (auto simp add: io_return_def)

lemma cache_delete_returns: "\<exists>b w'. cache_delete lib self key w = (Inr b, w')"
  unfolding cache_delete_def using try_except_return
  by (auto simp add: io_return_def)

lemma cache_off:
  assumes "\<not> enabled self \<or> redis_client self = None"
  shows "cache_get lib self key w = (Inr None, w)"
    and "cache_set lib self key val ttl_arg w = (Inr False, w)"
    and "cache_delete lib self key w = (Inr False, w)"
  using assms by (auto simp add: cache_get_def cache_set_def cache_delete_def io_return_def)

lemma cache_get_store_failure:
  assumes "enabled self" and "redis_client self = Some c"
    and "redis_get lib c key w = (Inl e, w')
         \<or> (\<exists>s. redis_get lib c key w = (Inr (Some s), w') \<and> s \<noteq> [] \<and> json_loads lib s = Inl e)"
  shows "cache_get lib self key w = (Inr None, w')"
  using assms
  by (auto simp add: cache_get_def io_bind_def intro!: try_except_failed)

lemma cache_set_store_failure:
  assumes "enabled self" and "redis_client self = Some c"
    and "json_dumps lib val = Inl e \<and> w' = w
         \<or> (\<exists>serialized. json_dumps lib val = Inr serialized
               \<and> redis_setex lib c key
                    (case ttl_arg of None \<Rightarrow> ttl self | Some t \<Rightarrow> if t \<noteq> 0 then t else ttl self)
                    serialized w = (Inl e, w'))"
  shows "cache_set lib self key val ttl_arg w = (Inr False, w')"
  using assms
  by (auto simp add: cache_set_def io_bind_def Let_def intro!: try_except_failed)

lemma cache_delete_store_failure:
  assumes "enabled self" and "redis_client self = Some c"
    and "redis_delete lib c key w = (Inl e, w')"
  shows "cache_delete lib self key w = (Inr False, w')"
  using assms
  by (auto simp add: cache_delete_def io_bind_def intro!: try_except_failed)

lemma connect_returns: "\<exists>cache w'. connect lib st self w = (Inr cache, w')"
  by (auto simp add: connect_def io_return_def Let_def split: prod.splits sum.splits)

lemma connect_failure_disables:
  assumes "from_url lib (REDIS_URL st) w = (Inl e, w')
           \<or> (\<exists>c w1. from_url lib (REDIS_URL st) w = (Inr c, w1) \<and> ping lib c w1 = (Inl e, w'))"
  shows "\<exists>cache. connect lib st self w = (Inr cache, if enabled self then w' else w)
           \<and> \<not> enabled cache"
  using assms
  by (auto simp add: connect_def io_return_def Let_def)

lemma cached_pass_through:
  assumes "connect lib st (CacheManager_init st) w = (Inr cache, w1)"
    and "\<not> enabled cache"
    and "''prefix'' \<notin> set (map fst kwargs)"
  shows "cached lib st keyfn prefix ttl_arg func args kwargs w =
           io_bind (func args kwargs)
             (\<lambda>result. io_bind (disconnect lib cache) (\<lambda>_. io_return result)) w1"
  using assms
  by (simp add: cached_def call_generate_key_def io_bind_def Let_def cache_off io_return_def
      split: prod.splits sum.splits)


lemma disconnect_no_client:
  "redis_client cache = None \<Longrightarrow> disconnect lib cache w = (Inr (), w)"
  by (simp add: disconnect_def io_return_def)

lemma connect_from_url_failure:
  assumes "ENABLE_CACHE st" and "from_url lib (REDIS_URL st) w = (Inl e, w1)"
  shows "connect lib st (CacheManager_init st) w =
           (Inr ((CacheManager_init st)\<lparr>enabled := False\<rparr>), w1)"
  using assms by (simp add: connect_def CacheManager_init_def)


lemma cached_key_error:
  assumes "connect lib st (CacheManager_init st) w = (Inr cache, w1)"
    and "''prefix'' \<in> set (map fst kwargs)"
  shows "cached lib st keyfn prefix ttl_arg func args kwargs w =
           (Inl (Exception ''TypeError''), w1)"
  using assms
  by (simp add: cached_def call_generate_key_def io_bind_def)

text \<open>
  Claim C9, where the code departs from it. The claim has the wrapper of \<open>cached\<close> succeed
  whenever the wrapped function does, passing through when the cache is down. The
  wrapper generates the cache key outside any \<open>try\<close>: whenever one of the keyword
  arguments is named \<open>prefix\<close> it raises \<open>TypeError\<close> right after \<open>connect\<close>, in every state
  of the cache and of the store, so also after a connection failure. The wrapped
  function is never run: the outcome is the same for every wrapped function.
\<close>

theorem cached_prefix_keyword_raises:
  "''prefix'' \<in> set (map fst kwargs) \<longrightarrow>
     (\<exists>cache w1. connect lib st (CacheManager_init st) w = (Inr cache, w1)
        \<and> cached lib st keyfn prefix ttl_arg func args kwargs w =
            (Inl (Exception ''TypeError''), w1)
        \<and> cached lib st keyfn prefix ttl_arg func' args kwargs w =
            cached lib st keyfn prefix ttl_arg func args kwargs w)"
proof
  assume k: "''prefix'' \<in> set (map fst kwargs)"
  from connect_returns [of lib st "CacheManager_init st" w] obtain cache w1 where
    c: "connect lib st (CacheManager_init st) w = (Inr cache, w1)"
    by blast
  from cached_key_error [OF c k] cached_key_error [OF c k] c
  show "\<exists>cache w1. connect lib st (CacheManager_init st) w = (Inr cache, w1)
        \<and> cached lib st keyfn prefix ttl_arg func args kwargs w =
            (Inl (Exception ''TypeError''), w1)
        \<and> cached lib st keyfn prefix ttl_arg func' args kwargs w =
            cached lib st keyfn prefix ttl_arg func args kwargs w"
    by (simp add: cached_key_error [OF c k])
qed

theorem cached_prefix_keyword_raises_witness:
  "''prefix'' \<in> set (map fst [(''prefix'', 1 :: nat)])
   \<and> ping quiet_close_store () () = (Inl (Exception ''ConnectionError''), ())
   \<and> seven [] [(''prefix'', 1)] () = (Inr (Some 7), ())
   \<and> cached quiet_close_store default_settings example_keyfn ''query'' None seven []
        [(''prefix'', 1)] () = (Inl (Exception ''TypeError''), ())"
proof -
  have k: "''prefix'' \<in> set (map fst [(''prefix'', 1 :: nat)])"
    by simp
  have p: "ping quiet_close_store () () = (Inl (Exception ''ConnectionError''), ())"
    by (simp add: quiet_close_store_def unreachable_store_def)
  have f: "seven [] [(''prefix'', 1)] () = (Inr (Some 7), ())"
    by (simp add: seven_def io_return_def)
  from cached_prefix_keyword_raises [of "[(''prefix'', 1 :: nat)]" quiet_close_store
      default_settings "()" example_keyfn "''query''" None seven "[]" seven] k
  have "cached quiet_close_store default_settings example_keyfn ''query'' None seven []
        [(''prefix'', 1)] () = (Inl (Exception ''TypeError''), ())"
    by auto
  with k p f show ?thesis by (intro conjI)
qed


text \<open>
  What the cache layer does guarantee. \<open>get\<close>, \<open>set\<close> and \<open>delete\<close> never raise: each
  returns a value in every state. With the cache disabled or unconnected they return
  \<open>None\<close>, \<open>False\<close> and \<open>False\<close> without touching the store, and when the store operation
  (or the JSON coding around it) raises they return \<open>None\<close>, \<open>False\<close> and \<open>False\<close>. A
  connection failure in \<open>connect\<close>, at \<open>from_url\<close> or at the ping, leaves the cache
  disabled. When no keyword argument is named \<open>prefix\<close>, the wrapper then runs the wrapped
  function directly, with no store read or write, and returns its result provided the
  function returns and the final \<open>disconnect\<close> does not raise.
\<close>

theorem cache_layer_degrades:
  "(\<exists>r w'. cache_get lib self key w = (Inr r, w'))
   \<and> (\<exists>b w'. cache_set lib self key val ttl_arg w = (Inr b, w'))
   \<and> (\<exists>b w'. cache_delete lib self key w = (Inr b, w'))
   \<and> (\<not> enabled self \<or> redis_client self = None \<longrightarrow>
        cache_get lib self key w = (Inr None, w)
        \<and> cache_set lib self key val ttl_arg w = (Inr False, w)
        \<and> cache_delete lib self key w = (Inr False, w))
   \<and> (enabled self \<and> redis_client self = Some c
        \<and> (redis_get lib c key w = (Inl e, w')
             \<or> (\<exists>s. redis_get lib c key w = (Inr (Some s), w') \<and> s \<noteq> []
                   \<and> json_loads lib s = Inl e)) \<longrightarrow>
        cache_get lib self key w = (Inr None, w'))
   \<and> (enabled self \<and> redis_client self = Some c
        \<and> (json_dumps lib val = Inl e \<and> w' = w
             \<or> (\<exists>serialized. json_dumps lib val = Inr serialized
                   \<and> redis_setex lib c key
                        (case ttl_arg of None \<Rightarrow> ttl self
                         | Some t \<Rightarrow> if t \<noteq> 0 then t else ttl self)
                        serialized w = (Inl e, w'))) \<longrightarrow>
        cache_set lib self key val ttl_arg w = (Inr False, w'))
   \<and> (enabled self \<and> redis_client self = Some c
        \<and> redis_delete lib c key w = (Inl e, w') \<longrightarrow>
        cache_delete lib self key w = (Inr False, w'))
   \<and> (ENABLE_CACHE st \<and> ''prefix'' \<notin> set (map fst kwargs)
        \<and> (from_url lib (REDIS_URL st) w = (Inl e, w1)
             \<or> (\<exists>c w0. from_url lib (REDIS_URL st) w = (Inr c, w0)
                   \<and> ping lib c w0 = (Inl e, w1))) \<longrightarrow>
        (\<exists>cache. connect lib st (CacheManager_init st) w = (Inr cache, w1)
           \<and> \<not> enabled cache
           \<and> cached lib st keyfn prefix ttl_arg func args kwargs w =
               io_bind (func args kwargs)
                 (\<lambda>result. io_bind (disconnect lib cache) (\<lambda>_. io_return result)) w1
           \<and> (func args kwargs w1 = (Inr result, w2)
                \<and> disconnect lib cache w2 = (Inr (), w3) \<longrightarrow>
                cached lib st keyfn prefix ttl_arg func args kwargs w = (Inr result, w3))))
   \<and> (ENABLE_CACHE st \<and> ''prefix'' \<notin> set (map fst kwargs)
        \<and> from_url lib (REDIS_URL st) w = (Inl e, w1)
        \<and> func args kwargs w1 = (Inr result, w2) \<longrightarrow>
        cached lib st keyfn prefix ttl_arg func args kwargs w = (Inr result, w2))"
proof (intro conjI)
  show "\<exists>r w'. cache_get lib self key w = (Inr r, w')"
    by (rule cache_get_returns)
  show "\<exists>b w'. cache_set lib self key val ttl_arg w = (Inr b, w')"
    by (rule cache_set_returns)
  show "\<exists>b w'. cache_delete lib self key w = (Inr b, w')"
    by (rule cache_delete_returns)
  show "\<not> enabled self \<or> redis_client self = None \<longrightarrow>
        cache_get lib self key w = (Inr None, w)
        \<and> cache_set lib self key val ttl_arg w = (Inr False, w)
        \<and> cache_delete lib self key w = (Inr False, w)"
    by (simp add: cache_off)
  show "enabled self \<and> redis_client self = Some c
        \<and> (redis_get lib c key w = (Inl e, w')
             \<or> (\<exists>s. redis_get lib c key w = (Inr (Some s), w') \<and> s \<noteq> []
                   \<and> json_loads lib s = Inl e)) \<longrightarrow>
        cache_get lib self key w = (Inr None, w')"
    using cache_get_store_failure [of self c lib key w e w'] by blast
  show "enabled self \<and> redis_client self = Some c
        \<and> (json_dumps lib val = Inl e \<and> w' = w
             \<or> (\<exists>serialized. json_dumps lib val = Inr serialized
                   \<and> redis_setex lib c key
                        (case ttl_arg of None \<Rightarrow> ttl self
                         | Some t \<Rightarrow> if t \<noteq> 0 then t else ttl self)
                        serialized w = (Inl e, w'))) \<longrightarrow>
        cache_set lib self key val ttl_arg w = (Inr False, w')"
    using cache_set_store_failure [of self c lib val e w' w key ttl_arg] by blast
  show "enabled self \<and> redis_client self = Some c
        \<and> redis_delete lib c key w = (Inl e, w') \<longrightarrow>
        cache_delete lib self key w = (Inr False, w')"
    using cache_delete_store_failure [of self c lib key w e w'] by blast
  show "ENABLE_CACHE st \<and> ''prefix'' \<notin> set (map fst kwargs)
        \<and> (from_url lib (REDIS_URL st) w = (Inl e, w1)
             \<or> (\<exists>c w0. from_url lib (REDIS_URL st) w = (Inr c, w0)
                   \<and> ping lib c w0 = (Inl e, w1))) \<longrightarrow>
        (\<exists>cache. connect lib st (CacheManager_init st) w = (Inr cache, w1)
           \<and> \<not> enabled cache
           \<and> cached lib st keyfn prefix ttl_arg func args kwargs w =
               io_bind (func args kwargs)
                 (\<lambda>result. io_bind (disconnect lib cache) (\<lambda>_. io_return result)) w1
           \<and> (func args kwargs w1 = (Inr result, w2)
                \<and> disconnect lib cache w2 = (Inr (), w3) \<longrightarrow>
                cached lib st keyfn prefix ttl_arg func args kwargs w = (Inr result, w3)))"
  proof
    assume a: "ENABLE_CACHE st \<and> ''prefix'' \<notin> set (map fst kwargs)
        \<and> (from_url lib (REDIS_URL st) w = (Inl e, w1)
             \<or> (\<exists>c w0. from_url lib (REDIS_URL st) w = (Inr c, w0)
                   \<and> ping lib c w0 = (Inl e, w1)))"
    then have en: "enabled (CacheManager_init st :: 'c cache_manager)"
      by (simp add: CacheManager_init_def)
    from a connect_failure_disables [of lib st w e w1 "CacheManager_init st"] en
    obtain cache where c: "connect lib st (CacheManager_init st) w = (Inr cache, w1)"
      and d: "\<not> enabled cache"
      by auto
    from a have k: "''prefix'' \<notin> set (map fst kwargs)" by simp
    note p = cached_pass_through [OF c d k, of keyfn prefix ttl_arg func]
    have "func args kwargs w1 = (Inr result, w2) \<and> disconnect lib cache w2 = (Inr (), w3) \<longrightarrow>
          cached lib st keyfn prefix ttl_arg func args kwargs w = (Inr result, w3)"
      by (simp add: p io_bind_def io_return_def)
    with c d p show "\<exists>cache. connect lib st (CacheManager_init st) w = (Inr cache, w1)
           \<and> \<not> enabled cache
           \<and> cached lib st keyfn prefix ttl_arg func args kwargs w =
               io_bind (func args kwargs)
                 (\<lambda>result. io_bind (disconnect lib cache) (\<lambda>_. io_return result)) w1
           \<and> (func args kwargs w1 = (Inr result, w2)
                \<and> disconnect lib cache w2 = (Inr (), w3) \<longrightarrow>
                cached lib st keyfn prefix ttl_arg func args kwargs w = (Inr result, w3))"
      by blast
  qed
  show "ENABLE_CACHE st \<and> ''prefix'' \<notin> set (map fst kwargs)
        \<and> from_url lib (REDIS_URL st) w = (Inl e, w1)
        \<and> func args kwargs w1 = (Inr result, w2) \<longrightarrow>
        cached lib st keyfn prefix ttl_arg func args kwargs w = (Inr result, w2)"
  proof
    assume a: "ENABLE_CACHE st \<and> ''prefix'' \<notin> set (map fst kwargs)
        \<and> from_url lib (REDIS_URL st) w = (Inl e, w1)
        \<and> func args kwargs w1 = (Inr result, w2)"
    then have c: "connect lib st (CacheManager_init st) w =
           (Inr ((CacheManager_init st)\<lparr>enabled := False\<rparr>), w1)"
      by (simp add: connect_from_url_failure)
    have d: "\<not> enabled ((CacheManager_init st :: 'c cache_manager)\<lparr>enabled := False\<rparr>)"
      by simp
    have n: "disconnect lib ((CacheManager_init st)\<lparr>enabled := False\<rparr>) w2 = (Inr (), w2)"
      by (rule disconnect_no_client) (simp add: CacheManager_init_def)
    from a have k: "''prefix'' \<notin> set (map fst kwargs)" by simp
    from a show "cached lib st keyfn prefix ttl_arg func args kwargs w = (Inr result, w2)"
      by (simp add: cached_pass_through [OF c d k] io_bind_def io_return_def n)
  qed
qed


theorem cache_layer_degrades_example:
  "cache_get quiet_close_store \<lparr>redis_client = Some (), enabled = True, ttl = 3600\<rparr> ''k'' () =
     (Inr None, ())
   \<and> cache_set quiet_close_store \<lparr>redis_client = Some (), enabled = True, ttl = 3600\<rparr> ''k''
        (Some 1) None () = (Inr False, ())
   \<and> cache_delete quiet_close_store \<lparr>redis_client = Some (), enabled = True, ttl = 3600\<rparr>
        ''k'' () = (Inr False, ())
   \<and> cached quiet_close_store default_settings example_keyfn ''query'' None seven [] [] () =
       (Inr (Some 7), ())
   \<and> cache_get quiet_close_store \<lparr>redis_client = Some (), enabled = False, ttl = 3600\<rparr>
        ''k'' () = (Inr None, ())
   \<and> cached (quiet_close_store\<lparr>from_url := (\<lambda>url w. (Inl (Exception ''ValueError''), w))\<rparr>)
        default_settings example_keyfn ''query'' None seven [] [] () = (Inr (Some 7), ())"
proof -
  let ?S = "\<lparr>redis_client = Some (), enabled = True, ttl = 3600\<rparr> :: unit cache_manager"
  let ?D = "\<lparr>redis_client = Some (), enabled = False, ttl = 3600\<rparr> :: unit cache_manager"
  let ?L = "quiet_close_store\<lparr>from_url := (\<lambda>url w. (Inl (Exception ''ValueError''), w))\<rparr>"
  have en: "ENABLE_CACHE default_settings"
    by (simp add: default_settings_def)
  have s: "enabled ?S \<and> redis_client ?S = Some ()"
    by simp
  have g: "redis_get quiet_close_store () ''k'' () = (Inl (Exception ''ConnectionError''), ())"
    and x: "json_dumps quiet_close_store (Some 1) = Inr ''null''"
    and y: "redis_setex quiet_close_store () ''k'' 3600 ''null'' () =
        (Inl (Exception ''ConnectionError''), ())"
    and z: "redis_delete quiet_close_store () ''k'' () = (Inl (Exception ''ConnectionError''), ())"
    and u: "from_url quiet_close_store (REDIS_URL default_settings) () = (Inr (), ())"
    and p: "ping quiet_close_store () () = (Inl (Exception ''ConnectionError''), ())"
    by (simp_all add: quiet_close_store_def unreachable_store_def)
  have f: "seven [] [] () = (Inr (Some 7), ())"
    by (simp add: seven_def io_return_def)
  have dq: "disconnect quiet_close_store cache () = (Inr (), ())" for cache :: "unit cache_manager"
    by (simp add: disconnect_def quiet_close_store_def unreachable_store_def io_return_def
        split: option.splits)
  have fu: "from_url ?L (REDIS_URL default_settings) () = (Inl (Exception ''ValueError''), ())"
    by simp
  note t1 = cache_layer_degrades [where lib = quiet_close_store and self = ?S and key = "''k''"
      and w = "()" and val = "Some 1" and ttl_arg = None and c = "()"
      and e = "Exception ''ConnectionError''" and w' = "()" and st = default_settings
      and ?w1.0 = "()" and keyfn = example_keyfn and prefix = "''query''" and func = seven
      and args = "[]" and kwargs = "[]" and result = "Some 7" and ?w2.0 = "()" and ?w3.0 = "()"]
  note t2 = cache_layer_degrades [where lib = quiet_close_store and self = ?D and key = "''k''"
      and w = "()" and val = "Some 1" and ttl_arg = None and c = "()"
      and e = "Exception ''ConnectionError''" and w' = "()" and st = default_settings
      and ?w1.0 = "()" and keyfn = example_keyfn and prefix = "''query''" and func = seven
      and args = "[]" and kwargs = "[]" and result = "Some 7" and ?w2.0 = "()" and ?w3.0 = "()"]
  note t3 = cache_layer_degrades [where lib = ?L and self = ?S and key = "''k''"
      and w = "()" and val = "Some 1" and ttl_arg = None and c = "()"
      and e = "Exception ''ValueError''" and w' = "()" and st = default_settings
      and ?w1.0 = "()" and keyfn = example_keyfn and prefix = "''query''" and func = seven
      and args = "[]" and kwargs = "[]" and result = "Some 7" and ?w2.0 = "()" and ?w3.0 = "()"]
  from t1 s g have a1: "cache_get quiet_close_store ?S ''k'' () = (Inr None, ())"
    by blast
  from t1 s x y have a2: "cache_set quiet_close_store ?S ''k'' (Some 1) None () = (Inr False, ())"
    by simp
  from t1 s z have a3: "cache_delete quiet_close_store ?S ''k'' () = (Inr False, ())"
    by blast
  have nk: "''prefix'' \<notin> set (map fst ([] :: (string \<times> nat) list))"
    by simp
  from t1 en nk u p f dq
  have a4: "cached quiet_close_store default_settings example_keyfn ''query'' None seven [] [] () =
       (Inr (Some 7), ())"
    by blast
  from t2 have a5: "cache_get quiet_close_store ?D ''k'' () = (Inr None, ())"
    by simp
  from t3 en nk fu f
  have a6: "cached ?L default_settings example_keyfn ''query'' None seven [] [] () =
       (Inr (Some 7), ())"
    by blast
  from a1 a2 a3 a4 a5 a6 show ?thesis by (intro conjI)
qed

text \<open>
  \<open>disconnect\<close> is the one store call without a \<open>try\<close>: when the client was created,
  the ping raised and the close raises too, the wrapped function returns \<open>7\<close> and the
  wrapper raises.
\<close>

theorem cached_close_raises_example:
  "from_url unreachable_store (REDIS_URL default_settings) () = (Inr (), ())
   \<and> ping unreachable_store () () = (Inl (Exception ''ConnectionError''), ())
   \<and> seven [] [] () = (Inr (Some 7), ())
   \<and> cached unreachable_store default_settings example_keyfn ''query'' None seven [] [] () =
       (Inl (Exception ''ConnectionError''), ())"
  by (simp add: cached_def call_generate_key_def connect_def cache_get_def cache_set_def
      disconnect_def CacheManager_init_def io_bind_def io_return_def seven_def Let_def
      unreachable_store_def default_settings_def)

end
